theory Spec2Isabelle
  imports Main "HOL-Library.Mapping" "HOL-Library.AList_Mapping"
begin

section \<open>JavaScript values used by the extension\<close>

text \<open>
  Strings are lists of 8-bit code units. \<^verbatim>\<open>undefined\<close> is \<open>None\<close> of an option type.
  A JavaScript \<^verbatim>\<open>number\<close> that holds a line number is a double with an integral value,
  an infinity or \<^verbatim>\<open>NaN\<close>. An integer is a \<^verbatim>\<open>number\<close> only after rounding: below \<open>2^53\<close>
  it is kept, above it is rounded to 53 significant bits, a tie to the even neighbour,
  and from \<open>2^1024\<close> on it is an infinity. The zero has no sign: as a key of a \<^verbatim>\<open>Map\<close> and
  in the arithmetic of the handlers both zeros are the same.
\<close>

datatype jsnum = NaN | Num int | PosInfinity | NegInfinity

function bitlen :: "int \<Rightarrow> nat" where
  \<comment> \<open>the number of bits of a positive integer\<close>
  "bitlen n = (if n \<le> 0 then 0 else Suc (bitlen (n div 2)))"
  by pat_completeness auto
termination by (relation "measure nat") auto

declare bitlen.simps [simp del]

definition to_double :: "int \<Rightarrow> jsnum" where
  "to_double n =
     (let a = \<bar>n\<bar> in
      if a < 2 ^ 53 then Num n
      else
        (let e = bitlen a - 53;
             q = a div 2 ^ e;
             r = a mod 2 ^ e;
             h = 2 ^ (e - 1);
             q' = (if h < r \<or> (r = h \<and> odd q) then q + 1 else q);
             v = q' * 2 ^ e
         in if 2 ^ 1024 \<le> v then (if n < 0 then NegInfinity else PosInfinity)
            else Num (if n < 0 then - v else v)))"

definition LF :: char where "LF = CHR 0x0A"
definition CR :: char where "CR = CHR 0x0D"
definition bs :: char where "bs = CHR 0x5C"

definition is_digit :: "char \<Rightarrow> bool" where
  "is_digit c = (48 \<le> (of_char c :: nat) \<and> (of_char c :: nat) \<le> 57)"

definition is_lower :: "char \<Rightarrow> bool" where
  "is_lower c = (97 \<le> (of_char c :: nat) \<and> (of_char c :: nat) \<le> 122)"

definition is_upper :: "char \<Rightarrow> bool" where
  "is_upper c = (65 \<le> (of_char c :: nat) \<and> (of_char c :: nat) \<le> 90)"

definition is_space :: "char \<Rightarrow> bool" where
  \<comment> \<open>the white space and line terminators that \<^verbatim>\<open>parseInt\<close> strips, below 256\<close>
  "is_space c = ((of_char c :: nat) \<in> {9, 10, 11, 12, 13, 32, 160})"

definition is_line_terminator :: "char \<Rightarrow> bool" where
  \<comment> \<open>the characters that \<^verbatim>\<open>.\<close> of a regular expression does not match\<close>
  "is_line_terminator c = (c = LF \<or> c = CR)"

definition digits_val :: "string \<Rightarrow> int" where
  "digits_val ds = foldl (\<lambda>a c. 10 * a + (int (of_char c) - 48)) 0 ds"

definition parseInt10 :: "string option \<Rightarrow> jsnum" where
  \<comment> \<open>\<^verbatim>\<open>parseInt(v, 10)\<close>: leading white space, an optional sign, the longest prefix of
      decimal digits, their value rounded to a double (an engine may take the digits
      after the twentieth as zeros; here all of them count); \<^verbatim>\<open>NaN\<close> without a digit
      (and for \<^verbatim>\<open>undefined\<close>)\<close>
  "parseInt10 v =
     (case v of
        None \<Rightarrow> NaN
      | Some s \<Rightarrow>
          (let t = dropWhile is_space s;
               neg = (t \<noteq> [] \<and> hd t = CHR ''-'');
               u = (if t \<noteq> [] \<and> (hd t = CHR ''-'' \<or> hd t = CHR ''+'') then tl t else t);
               z = takeWhile is_digit u
           in if z = [] then NaN
              else to_double ((if neg then - 1 else 1) * digits_val z)))"

text \<open>
  A regular expression is taken as its matching function: \<^verbatim>\<open>line.match(re)\<close> is
  \<open>None\<close> for \<^verbatim>\<open>null\<close> and otherwise the match array, the whole match first and then
  the capture groups, each a string or \<^verbatim>\<open>undefined\<close>.
\<close>

type_synonym regexp = "string \<Rightarrow> string option list option"

text \<open>\<^verbatim>\<open>fileContent.split(/\r?\n/)\<close>\<close>

fun split_lines :: "string \<Rightarrow> string list" where
  "split_lines [] = [[]]"
| "split_lines [c] = (if c = LF then [[], []] else [[c]])"
| "split_lines (c # d # cs) =
     (if c = LF then [] # split_lines (d # cs)
      else if c = CR \<and> d = LF then [] # split_lines cs
      else (case split_lines (d # cs) of
              l # ls \<Rightarrow> (c # l) # ls
            | [] \<Rightarrow> [[c]]))"

section \<open>The location index and its extraction (realize.ts)\<close>

record FileLocationData =
  originalFileIndex :: int
  highlightLineCount :: int

type_synonym linemap = "(jsnum, FileLocationData) mapping"

text \<open>The top-level key is \<^verbatim>\<open>pathMatch[1]\<close>, a string or \<^verbatim>\<open>undefined\<close>.\<close>

type_synonym locindex = "(string option, linemap) mapping"

datatype file_status = Missing | Unreadable string | Content string

datatype message =
    FileNotFound string
  | ReadFailed string string
  | MappingTurnedOff
  | SingleMappingEnabled
  | DoubleMappingActivated
  | ConfigError
  | ExecutionFailed

type_synonym editor = nat

datatype effect =
    FsExistsSync string
  | FsReadFile string
  | ShowErrorMessage message
  | ShowInformationMessage message
  | SetDecorations editor "int list"
  | RevealRange editor jsnum
  | HighlightLines editor "jsnum option" int
  | OpenFileAndJumpToLine "string option" jsnum
  | OpenTextDocument string
  | ShowTextDocument string
  | LoggerLog string

text \<open>
  The loop \<^verbatim>\<open>for (let i = lines.length - 1; i >= 0; i--)\<close>: the counter \<open>Suc i\<close> stands
  for the iteration at index \<open>i\<close>, the counter \<open>0\<close> for the exit. The built-in
  \<^verbatim>\<open>parseInt(_, 10)\<close> is the parameter \<open>parse\<close>: the extension runs with \<open>parseInt10\<close>, and
  what is proved of the extraction holds for every function in its place.
\<close>

fun extract_loop ::
  "(string option \<Rightarrow> jsnum) \<Rightarrow> regexp \<Rightarrow> regexp \<Rightarrow> string list \<Rightarrow> nat \<Rightarrow> int \<Rightarrow> locindex
   \<Rightarrow> locindex" where
  "extract_loop parse pathRegex SkipRegExp lines 0 lastMatchedLineIndex m = m"
| "extract_loop parse pathRegex SkipRegExp lines (Suc i) lastMatchedLineIndex m =
     (let line = lines ! i in
      if SkipRegExp line \<noteq> None
      then extract_loop parse pathRegex SkipRegExp lines i lastMatchedLineIndex m
      else
        (case pathRegex line of
           Some pathMatch \<Rightarrow>
             if 3 \<le> length pathMatch
             then
               (let filePath = pathMatch ! 1;
                    lineNumber = parse (pathMatch ! 2);
                    lineMap = (case Mapping.lookup m filePath of
                                 None \<Rightarrow> Mapping.empty
                               | Some lm \<Rightarrow> lm)
                in extract_loop parse pathRegex SkipRegExp lines i (int i)
                     (Mapping.update filePath
                        (Mapping.update lineNumber
                           \<lparr>originalFileIndex = int i,
                            highlightLineCount = lastMatchedLineIndex - int i\<rparr>
                           lineMap)
                        m))
             else extract_loop parse pathRegex SkipRegExp lines i (int i) m
         | None \<Rightarrow> extract_loop parse pathRegex SkipRegExp lines i (int i) m))"

definition extractFileLocations ::
  "(string \<Rightarrow> file_status) \<Rightarrow> (string option \<Rightarrow> jsnum) \<Rightarrow> string \<Rightarrow> locindex \<Rightarrow> regexp \<Rightarrow> regexp
   \<Rightarrow> effect list \<times> locindex" where
  "extractFileLocations fs parse configFilePath fileLocationsMap pathRegex SkipRegExp =
     (case fs configFilePath of
        Missing \<Rightarrow>
          ([FsExistsSync configFilePath, ShowErrorMessage (FileNotFound configFilePath)],
           fileLocationsMap)
      | Unreadable err \<Rightarrow>
          ([FsExistsSync configFilePath, FsReadFile configFilePath,
            ShowErrorMessage (ReadFailed configFilePath err)],
           fileLocationsMap)
      | Content fileContent \<Rightarrow>
          (let lines = split_lines fileContent
           in ([FsExistsSync configFilePath, FsReadFile configFilePath],
               extract_loop parse pathRegex SkipRegExp lines (length lines) (int (length lines))
                 fileLocationsMap)))"

text \<open>\<^verbatim>\<open>getActiveEditorFilePath\<close>: the path normalisation.\<close>

definition toUpperCase :: "char \<Rightarrow> char" where
  "toUpperCase c = (if is_lower c then char_of ((of_char c :: nat) - 32) else c)"

definition slash :: "char \<Rightarrow> char" where
  "slash c = (if c = bs then CHR ''/'' else c)"

definition getActiveEditorFilePath :: "string \<Rightarrow> string \<Rightarrow> string option" where
  "getActiveEditorFilePath osName filePath =
     (if filePath = [] then None
      else
        (let normalizedPath = map slash filePath in
         if osName = ''Windows''
         then
           (case normalizedPath of
              d # c # s # rest \<Rightarrow>
                if (is_lower d \<or> is_upper d) \<and> c = CHR '':'' \<and> s = CHR ''/''
                   \<and> list_all (\<lambda>x. \<not> is_line_terminator x) rest
                then Some ([toUpperCase d] @ '':'' @ (s # rest))
                else Some normalizedPath
            | _ \<Rightarrow> Some normalizedPath)
         else Some normalizedPath))"

text \<open>The shape that \<^verbatim>\<open>/^([a-zA-Z]):(\/.*)$/\<close> matches.\<close>

definition drive_form :: "string \<Rightarrow> char \<Rightarrow> string \<Rightarrow> bool" where
  "drive_form q d rest =
     (q = d # CHR '':'' # CHR ''/'' # rest \<and> (is_lower d \<or> is_upper d) \<and>
      list_all (\<lambda>x. \<not> is_line_terminator x) rest)"

section \<open>Regular expressions of the configuration\<close>

text \<open>The default of \<^verbatim>\<open>jumptrace.skip\<close>, \<^verbatim>\<open>/^ /\<close>.\<close>

definition re_skip_default :: regexp where
  "re_skip_default s =
     (case s of c # _ \<Rightarrow> if c = CHR '' '' then Some [Some [c]] else None | [] \<Rightarrow> None)"

text \<open>
  The path expression of an unknown platform, \<^verbatim>\<open>/^(.*?):(\d+)$/\<close>. The digits hold no
  colon, so the lazy first group ends at the last colon of the line.
\<close>

definition re_path_unknown :: regexp where
  "re_path_unknown s =
     (let r = rev s;
          ds = rev (takeWhile is_digit r);
          rest = dropWhile is_digit r
      in case rest of
           c # p \<Rightarrow>
             if c = CHR '':'' \<and> ds \<noteq> [] \<and> list_all (\<lambda>x. \<not> is_line_terminator x) p
             then Some [Some s, Some (rev p), Some ds]
             else None
         | [] \<Rightarrow> None)"

text \<open>The path expression on Windows, \<^verbatim>\<open>/^([A-Za-z]:[\/\\].*?):(\d+)$/\<close>.\<close>

definition re_path_windows :: regexp where
  "re_path_windows s =
     (case re_path_unknown s of
        Some pathMatch \<Rightarrow>
          (case pathMatch ! 1 of
             Some (d # c # sep # rest) \<Rightarrow>
               if (is_lower d \<or> is_upper d) \<and> c = CHR '':'' \<and> (sep = CHR ''/'' \<or> sep = bs)
               then Some pathMatch else None
           | _ \<Rightarrow> None)
      | None \<Rightarrow> None)"

section \<open>Reading the index\<close>

text \<open>
  What one iteration of the extraction loop sees in a line: nothing when the skip
  expression matches or the path expression does not give two groups, otherwise the key
  under which the line is stored.
\<close>

definition token ::
  "(string option \<Rightarrow> jsnum) \<Rightarrow> regexp \<Rightarrow> regexp \<Rightarrow> string \<Rightarrow> (string option \<times> jsnum) option" where
  "token parse pathRegex SkipRegExp line =
     (if SkipRegExp line \<noteq> None then None
      else (case pathRegex line of
              Some pathMatch \<Rightarrow>
                if 3 \<le> length pathMatch
                then Some (pathMatch ! 1, parse (pathMatch ! 2))
                else None
            | None \<Rightarrow> None))"

definition lookup_entry :: "locindex \<Rightarrow> string option \<Rightarrow> jsnum \<Rightarrow> FileLocationData option" where
  "lookup_entry m p n =
     (case Mapping.lookup m p of None \<Rightarrow> None | Some lm \<Rightarrow> Mapping.lookup lm n)"

definition store_entry ::
  "locindex \<Rightarrow> string option \<Rightarrow> jsnum \<Rightarrow> FileLocationData \<Rightarrow> locindex" where
  "store_entry m p k e =
     Mapping.update p
       (Mapping.update k e (case Mapping.lookup m p of None \<Rightarrow> Mapping.empty | Some lm \<Rightarrow> lm))
       m"

text \<open>
  The first line at or below \<open>n\<close> that the skip expression does not match, or the number
  of lines when there is none: the value of \<^verbatim>\<open>lastMatchedLineIndex\<close> when the loop
  reaches the line above \<open>n\<close>.
\<close>

definition boundary :: "regexp \<Rightarrow> string list \<Rightarrow> nat \<Rightarrow> nat" where
  "boundary SkipRegExp lines n =
     n + length (takeWhile (\<lambda>l. SkipRegExp l \<noteq> None) (drop n lines))"

section \<open>The state of the extension (extension.ts)\<close>

record document =
  editor :: "editor option"
  document :: "string option"
  light :: bool
  line :: "jsnum option"
  oldlines :: "nat option"
  path :: "string option"

record configuration =
  filepath :: string
  pathRegex :: regexp
  skip :: regexp
  osName :: string
  isFeatureEnabled :: bool
  isFeatureEnabled1 :: bool
  intercept :: bool
  state :: bool
  error :: bool

text \<open>
  What the handlers read from the editor host: for each text editor the scheme and the
  file system path of its document's URI, the line of its active selection and the lines
  of its document; and the visible editors.
\<close>

record vscode =
  scheme :: "editor \<Rightarrow> string"
  fsPath :: "editor \<Rightarrow> string"
  activeLine :: "editor \<Rightarrow> nat"
  lineTexts :: "editor \<Rightarrow> string list"
  visibleTextEditors :: "editor list"

text \<open>
  The module's variables \<^verbatim>\<open>masterfile\<close>, \<^verbatim>\<open>assistantfile\<close>, \<^verbatim>\<open>config\<close> and the static
  fields of \<^verbatim>\<open>hashtable\<close>, with the host and the list of the calls made to it so far.
\<close>

record world =
  masterfile :: document
  assistantfile :: document
  config :: configuration
  fileLocationsMap :: locindex
  currentActiveFileLocationMap :: linemap
  locationData :: "FileLocationData option"
  vscode :: vscode
  trace :: "effect list"

text \<open>
  What the handlers do not decide: the file system, which host calls throw, the
  built-ins \<^verbatim>\<open>parseInt\<close> (without a radix) and \<^verbatim>\<open>parseFloat\<close> with their results kept to
  integral values, the infinities and \<^verbatim>\<open>NaN\<close>, and the outcome of opening and showing documents.
  \<^verbatim>\<open>openFileAndJumpToLine\<close> of realize.ts catches every error and gives the editor or
  \<^verbatim>\<open>undefined\<close>; it is taken by its outcome.
\<close>

record env =
  fs :: "string \<Rightarrow> file_status"
  throws :: "effect \<Rightarrow> bool"
  parseInt :: "string option \<Rightarrow> jsnum"
  parseFloat :: "string option \<Rightarrow> jsnum"
  openFileAndJumpToLine :: "string option \<Rightarrow> jsnum \<Rightarrow> vscode \<Rightarrow> editor option \<times> vscode"
  openTextDocument :: "string \<Rightarrow> string option"
  showTextDocument :: "string \<Rightarrow> vscode \<Rightarrow> (editor \<times> vscode) option"

text \<open>
  A statement runs to its end, returns from the handler, or throws; in each case the
  state it leaves is kept.
\<close>

datatype completion = Normal | Return | Throw

type_synonym stmt = "world \<Rightarrow> completion \<times> world"

fun run :: "stmt list \<Rightarrow> stmt" where
  "run [] w = (Normal, w)"
| "run (s # ss) w = (case s w of (Normal, w') \<Rightarrow> run ss w' | r \<Rightarrow> r)"

definition assign :: "(world \<Rightarrow> world) \<Rightarrow> stmt" where
  "assign f w = (Normal, f w)"

definition ret :: stmt where
  "ret w = (Return, w)"

definition when_stmt :: "(world \<Rightarrow> bool) \<Rightarrow> stmt \<Rightarrow> stmt" where
  "when_stmt b s w = (if b w then s w else (Normal, w))"

definition emit :: "effect \<Rightarrow> stmt" where
  \<comment> \<open>a call that cannot throw\<close>
  "emit e w = (Normal, w\<lparr>trace := trace w @ [e]\<rparr>)"

definition call :: "env \<Rightarrow> effect \<Rightarrow> stmt" where
  \<comment> \<open>a call to the host\<close>
  "call env e w = (if throws env e then (Throw, w) else emit e w)"

definition with_editor :: "(world \<Rightarrow> document) \<Rightarrow> (editor \<Rightarrow> stmt) \<Rightarrow> stmt" where
  \<comment> \<open>a member access on \<^verbatim>\<open>d.editor\<close>, a \<^verbatim>\<open>TypeError\<close> when it is \<^verbatim>\<open>undefined\<close>\<close>
  "with_editor d s w = (case editor (d w) of None \<Rightarrow> (Throw, w) | Some e \<Rightarrow> s e w)"

definition falsy :: "string option \<Rightarrow> bool" where
  "falsy v = (v = None \<or> v = Some [])"

definition minus1 :: "jsnum \<Rightarrow> jsnum" where
  \<comment> \<open>\<^verbatim>\<open>v - 1\<close>, rounded\<close>
  "minus1 v = (case v of Num n \<Rightarrow> to_double (n - 1) | _ \<Rightarrow> v)"

definition set_intercept :: "bool \<Rightarrow> world \<Rightarrow> world" where
  "set_intercept b w = w\<lparr>config := (config w)\<lparr>intercept := b\<rparr>\<rparr>"

section \<open>The selection change handler\<close>

text \<open>An editor that is neither the master nor the assistant becomes the assistant.\<close>

definition role_resolution :: "env \<Rightarrow> editor \<Rightarrow> stmt" where
  "role_resolution env ev =
     when_stmt (\<lambda>w. editor (masterfile w) \<noteq> Some ev \<and> editor (assistantfile w) \<noteq> Some ev)
       (run [
          assign (\<lambda>w. w\<lparr>assistantfile := (assistantfile w)\<lparr>editor := Some ev\<rparr>\<rparr>),
          assign (\<lambda>w. w\<lparr>assistantfile := (assistantfile w)
            \<lparr>path := getActiveEditorFilePath (osName (config w)) (fsPath (vscode w) ev)\<rparr>\<rparr>),
          when_stmt (\<lambda>w. falsy (path (assistantfile w))) ret,
          (\<lambda>w. case Mapping.lookup (fileLocationsMap w) (path (assistantfile w)) of
                 None \<Rightarrow> ret w
               | Some oncemap \<Rightarrow> assign (\<lambda>w. w\<lparr>currentActiveFileLocationMap := oncemap\<rparr>) w)])"

definition unchanged_lines :: "world \<Rightarrow> bool" where
  "unchanged_lines w =
     (case (editor (masterfile w), editor (assistantfile w)) of
        (Some m, Some a) \<Rightarrow>
          Some (activeLine (vscode w) m) = oldlines (masterfile w) \<and>
          Some (activeLine (vscode w) a) = oldlines (assistantfile w)
      | _ \<Rightarrow> False)"

definition clear_master :: "env \<Rightarrow> stmt" where
  "clear_master env =
     when_stmt (\<lambda>w. light (masterfile w))
       (run [with_editor masterfile (\<lambda>e. call env (SetDecorations e [])),
             assign (\<lambda>w. w\<lparr>masterfile := (masterfile w)\<lparr>light := False\<rparr>\<rparr>)])"

definition clear_assistant :: "env \<Rightarrow> stmt" where
  "clear_assistant env =
     when_stmt (\<lambda>w. light (assistantfile w))
       (run [with_editor assistantfile (\<lambda>e. call env (SetDecorations e [])),
             assign (\<lambda>w. w\<lparr>assistantfile := (assistantfile w)\<lparr>light := False\<rparr>\<rparr>)])"

text \<open>
  The branch of a changed assistant line, lines 149 to 153. The line of the selection, a
  non-negative integer of the host, enters the arithmetic and the map as a \<^verbatim>\<open>number\<close>.
\<close>

definition assistant_to_master :: "env \<Rightarrow> stmt" where
  "assistant_to_master env =
     with_editor assistantfile (\<lambda>a. run [
       assign (\<lambda>w. w\<lparr>assistantfile := (assistantfile w)
         \<lparr>oldlines := Some (activeLine (vscode w) a)\<rparr>\<rparr>),
       assign (\<lambda>w. w\<lparr>locationData :=
         Mapping.lookup (currentActiveFileLocationMap w)
           (to_double (int (activeLine (vscode w) a) + 1))\<rparr>),
       assign (\<lambda>w. w\<lparr>assistantfile := (assistantfile w)
         \<lparr>line := Some (to_double (int (activeLine (vscode w) a)))\<rparr>\<rparr>),
       (\<lambda>w. case locationData w of
              None \<Rightarrow> ret w
            | Some d \<Rightarrow>
                with_editor masterfile
                  (\<lambda>m. call env (RevealRange m (Num (originalFileIndex d)))) w)])"

text \<open>The two ways a matching line of the master is resolved, lines 160 to 175.\<close>

definition same_file :: "env \<Rightarrow> string option list \<Rightarrow> stmt" where
  "same_file env pathMatch =
     run [
       assign (\<lambda>w. w\<lparr>locationData :=
         Mapping.lookup (currentActiveFileLocationMap w) (parseInt env (pathMatch ! 2))\<rparr>),
       assign (\<lambda>w. w\<lparr>assistantfile := (assistantfile w)
         \<lparr>line := Some (minus1 (parseFloat env (pathMatch ! 2)))\<rparr>\<rparr>),
       with_editor assistantfile
         (\<lambda>a. call env (RevealRange a (minus1 (parseFloat env (pathMatch ! 2)))))]"

definition other_file :: "env \<Rightarrow> string option list \<Rightarrow> stmt" where
  "other_file env pathMatch w =
     (let target = minus1 (parseInt env (pathMatch ! 2));
          opened = openFileAndJumpToLine env (pathMatch ! 1) target (vscode w);
          w1 = w\<lparr>vscode := snd opened,
                 trace := trace w @ [OpenFileAndJumpToLine (pathMatch ! 1) target]\<rparr>
      in case fst opened of
           None \<Rightarrow> ret w1
         | Some onceeditor \<Rightarrow>
             run [
               assign (\<lambda>w. w\<lparr>assistantfile := (assistantfile w)\<lparr>editor := Some onceeditor\<rparr>\<rparr>),
               assign (\<lambda>w. w\<lparr>assistantfile := (assistantfile w)
                 \<lparr>path := getActiveEditorFilePath (osName (config w))
                            (fsPath (vscode w) onceeditor)\<rparr>\<rparr>),
               when_stmt (\<lambda>w. falsy (path (assistantfile w))) ret,
               (\<lambda>w. case path (assistantfile w) of
                      None \<Rightarrow> (Normal, w)
                    | Some p \<Rightarrow> call env (LoggerLog p) w),
               (\<lambda>w. case Mapping.lookup (fileLocationsMap w) (pathMatch ! 1) of
                      None \<Rightarrow> ret w
                    | Some oncemap \<Rightarrow>
                        assign (\<lambda>w. w\<lparr>currentActiveFileLocationMap := oncemap\<rparr>) w),
               assign (\<lambda>w. w\<lparr>locationData :=
                 Mapping.lookup (currentActiveFileLocationMap w) (parseInt env (pathMatch ! 2))\<rparr>),
               assign (\<lambda>w. w\<lparr>assistantfile := (assistantfile w)
                 \<lparr>line := Some (minus1 (parseFloat env (pathMatch ! 2)))\<rparr>\<rparr>)] w1)"

text \<open>
  The upward scan \<^verbatim>\<open>for (let i = active.line; i >= 0; i--)\<close> of the master \<open>m\<close>: the
  counter \<open>Suc i\<close> stands for the iteration at line \<open>i\<close>. \<^verbatim>\<open>lineAt\<close> throws outside the
  document. A \<^verbatim>\<open>break\<close> and the end of the loop both go on after the loop.
\<close>

fun scan :: "env \<Rightarrow> editor \<Rightarrow> nat \<Rightarrow> stmt" where
  "scan env m 0 w = (Normal, w)"
| "scan env m (Suc i) w =
     (if length (lineTexts (vscode w) m) \<le> i then (Throw, w)
      else
        (let text = lineTexts (vscode w) m ! i in
         if skip (config w) text \<noteq> None then scan env m i w
         else
           (case pathRegex (config w) text of
              Some pathMatch \<Rightarrow>
                if 3 \<le> length pathMatch
                then (if pathMatch ! 1 = path (assistantfile w)
                      then same_file env pathMatch w
                      else other_file env pathMatch w)
                else scan env m i w
            | None \<Rightarrow> scan env m i w)))"

definition master_to_assistant :: "env \<Rightarrow> stmt" where
  "master_to_assistant env =
     with_editor masterfile (\<lambda>m. run [
       assign (\<lambda>w. w\<lparr>masterfile := (masterfile w)
         \<lparr>oldlines := Some (activeLine (vscode w) m)\<rparr>\<rparr>),
       (\<lambda>w. scan env m (Suc (activeLine (vscode w) m)) w)])"

definition dispatch :: "env \<Rightarrow> stmt" where
  "dispatch env =
     with_editor assistantfile (\<lambda>a w.
       if oldlines (assistantfile w) \<noteq> Some (activeLine (vscode w) a)
       then assistant_to_master env w
       else if \<not> isFeatureEnabled1 (config w) then master_to_assistant env w
       else ret w)"

text \<open>
  Lines 179 to 184. \<^verbatim>\<open>highlightLines\<close> of realize.ts catches its own errors; reading a
  field of an undefined \<^verbatim>\<open>locationData\<close> throws.
\<close>

definition commit :: stmt where
  "commit =
     run [
       with_editor masterfile (\<lambda>m. assign (\<lambda>w. w\<lparr>masterfile := (masterfile w)
         \<lparr>oldlines := Some (activeLine (vscode w) m)\<rparr>\<rparr>)),
       with_editor assistantfile (\<lambda>a. assign (\<lambda>w. w\<lparr>assistantfile := (assistantfile w)
         \<lparr>oldlines := Some (activeLine (vscode w) a)\<rparr>\<rparr>)),
       with_editor assistantfile (\<lambda>a w. emit (HighlightLines a (line (assistantfile w)) 1) w),
       with_editor masterfile (\<lambda>m w.
         case locationData w of
           None \<Rightarrow> (Throw, w)
         | Some d \<Rightarrow>
             emit (HighlightLines m (Some (Num (originalFileIndex d))) (highlightLineCount d)) w),
       assign (\<lambda>w. w\<lparr>masterfile := (masterfile w)\<lparr>light := True\<rparr>\<rparr>),
       assign (\<lambda>w. w\<lparr>assistantfile := (assistantfile w)\<lparr>light := True\<rparr>\<rparr>)]"

text \<open>The body of the \<^verbatim>\<open>try\<close> block, lines 137 to 184.\<close>

definition body :: "env \<Rightarrow> editor \<Rightarrow> stmt" where
  "body env ev =
     run [
       role_resolution env ev,
       when_stmt (\<lambda>w. editor (assistantfile w) = None \<or> editor (masterfile w) = None) ret,
       when_stmt unchanged_lines ret,
       clear_master env,
       clear_assistant env,
       dispatch env,
       commit]"

text \<open>
  The listener of \<^verbatim>\<open>onDidChangeTextEditorSelection\<close> for an event of the editor \<open>ev\<close>:
  the guard, the latch, the body, the \<^verbatim>\<open>catch\<close> and the \<^verbatim>\<open>finally\<close>.
\<close>

definition selectionChange :: "env \<Rightarrow> editor \<Rightarrow> world \<Rightarrow> world" where
  "selectionChange env ev w =
     (if isFeatureEnabled (config w) \<or> scheme (vscode w) ev \<noteq> ''file''
         \<or> intercept (config w) \<or> error (config w)
      then w
      else
        (let r = body env ev (set_intercept True w);
             w2 = (if fst r = Throw
                   then snd (call env (ShowInformationMessage ExecutionFailed) (snd r))
                   else snd r)
         in set_intercept False w2))"

section \<open>The handler around its suspension\<close>

text \<open>
  The handler has one suspension point, the \<^verbatim>\<open>await\<close> of \<^verbatim>\<open>openFileAndJumpToLine\<close> on
  line 164. The scan up to it: the result is a completion, or the match array and the
  state with which the handler is suspended.
\<close>

fun scan_begin ::
  "env \<Rightarrow> editor \<Rightarrow> nat \<Rightarrow> world \<Rightarrow> (completion \<times> world) + (string option list \<times> world)" where
  "scan_begin env m 0 w = Inl (Normal, w)"
| "scan_begin env m (Suc i) w =
     (if length (lineTexts (vscode w) m) \<le> i then Inl (Throw, w)
      else
        (let text = lineTexts (vscode w) m ! i in
         if skip (config w) text \<noteq> None then scan_begin env m i w
         else
           (case pathRegex (config w) text of
              Some pathMatch \<Rightarrow>
                if 3 \<le> length pathMatch
                then (if pathMatch ! 1 = path (assistantfile w)
                      then Inl (same_file env pathMatch w)
                      else Inr (pathMatch, w))
                else scan_begin env m i w
            | None \<Rightarrow> scan_begin env m i w)))"

definition dispatch_begin ::
  "env \<Rightarrow> world \<Rightarrow> (completion \<times> world) + (string option list \<times> world)" where
  "dispatch_begin env w =
     (case editor (assistantfile w) of
        None \<Rightarrow> Inl (Throw, w)
      | Some a \<Rightarrow>
          if oldlines (assistantfile w) \<noteq> Some (activeLine (vscode w) a)
          then Inl (assistant_to_master env w)
          else if \<not> isFeatureEnabled1 (config w)
          then (case editor (masterfile w) of
                  None \<Rightarrow> Inl (Throw, w)
                | Some m \<Rightarrow>
                    scan_begin env m (Suc (activeLine (vscode w) m))
                      (w\<lparr>masterfile := (masterfile w)
                          \<lparr>oldlines := Some (activeLine (vscode w) m)\<rparr>\<rparr>))
          else Inl (ret w))"

text \<open>The \<^verbatim>\<open>catch\<close> and the \<^verbatim>\<open>finally\<close> of the handler.\<close>

definition finish :: "env \<Rightarrow> completion \<times> world \<Rightarrow> world" where
  "finish env r =
     set_intercept False
       (if fst r = Throw
        then snd (call env (ShowInformationMessage ExecutionFailed) (snd r))
        else snd r)"

text \<open>
  The handler up to its suspension: it ends in a state, or it is suspended with a match
  array and a state.
\<close>

definition selectionChange_begin ::
  "env \<Rightarrow> editor \<Rightarrow> world \<Rightarrow> world + (string option list \<times> world)" where
  "selectionChange_begin env ev w =
     (if isFeatureEnabled (config w) \<or> scheme (vscode w) ev \<noteq> ''file''
         \<or> intercept (config w) \<or> error (config w)
      then Inl w
      else
        (case run [role_resolution env ev,
                   when_stmt (\<lambda>w. editor (assistantfile w) = None \<or> editor (masterfile w) = None) ret,
                   when_stmt unchanged_lines ret,
                   clear_master env,
                   clear_assistant env] (set_intercept True w) of
           (Normal, w3) \<Rightarrow>
             (case dispatch_begin env w3 of
                Inl (Normal, w4) \<Rightarrow> Inl (finish env (commit w4))
              | Inl r \<Rightarrow> Inl (finish env r)
              | Inr suspended \<Rightarrow> Inr suspended)
         | r \<Rightarrow> Inl (finish env r)))"

text \<open>The handler from its suspension on, in the state that it finds when it is resumed.\<close>

definition selectionChange_resume :: "env \<Rightarrow> string option list \<Rightarrow> world \<Rightarrow> world" where
  "selectionChange_resume env pathMatch w =
     finish env (case other_file env pathMatch w of (Normal, w4) \<Rightarrow> commit w4 | r \<Rightarrow> r)"

section \<open>The commands\<close>

text \<open>\<^verbatim>\<open>jumptrace.close\<close>, lines 88 to 99. It has no \<^verbatim>\<open>catch\<close>.\<close>

definition toggleFeatureCommand :: "env \<Rightarrow> world \<Rightarrow> world" where
  "toggleFeatureCommand env w =
     (let r = run [
                assign (set_intercept True),
                assign (\<lambda>w. w\<lparr>config := (config w)\<lparr>isFeatureEnabled := True\<rparr>\<rparr>),
                assign (\<lambda>w. w\<lparr>config := (config w)\<lparr>isFeatureEnabled1 := True\<rparr>\<rparr>),
                assign (\<lambda>w. w\<lparr>config := (config w)\<lparr>state := True\<rparr>\<rparr>),
                clear_master env,
                clear_assistant env,
                call env (ShowInformationMessage MappingTurnedOff)] w
      in set_intercept False (snd r))"

text \<open>\<^verbatim>\<open>jumptrace.switchover\<close>, lines 101 to 128.\<close>

definition first_build :: "env \<Rightarrow> stmt" where
  "first_build env w =
     (let ex = extractFileLocations (fs env) parseInt10 (filepath (config w)) (fileLocationsMap w)
                 (pathRegex (config w)) (skip (config w));
          w1 = w\<lparr>fileLocationsMap := snd ex,
                 trace := trace w @ fst ex @ [OpenTextDocument (filepath (config w))]\<rparr>
      in case openTextDocument env (filepath (config w)) of
           None \<Rightarrow> (Throw, w1)
         | Some d \<Rightarrow>
             (let w2 = w1\<lparr>masterfile := (masterfile w1)\<lparr>document := Some d\<rparr>,
                         trace := trace w1 @ [ShowTextDocument d]\<rparr>
              in case showTextDocument env d (vscode w2) of
                   None \<Rightarrow> (Throw, w2)
                 | Some (e, h) \<Rightarrow>
                     (Normal, w2\<lparr>vscode := h,
                                 masterfile := (masterfile w2)\<lparr>editor := Some e\<rparr>,
                                 assistantfile := (assistantfile w2)\<lparr>editor := Some e\<rparr>\<rparr>)))"

definition show_master :: "env \<Rightarrow> stmt" where
  "show_master env w =
     (case document (masterfile w) of
        None \<Rightarrow> ret w
      | Some d \<Rightarrow>
          (case find (\<lambda>e. Some (fsPath (vscode w) e) =
                          map_option (fsPath (vscode w)) (editor (masterfile w)))
                  (visibleTextEditors (vscode w)) of
             Some e \<Rightarrow> (Normal, w)
           | None \<Rightarrow>
               (let w1 = w\<lparr>trace := trace w @ [ShowTextDocument d]\<rparr>
                in case showTextDocument env d (vscode w1) of
                     None \<Rightarrow> (Throw, w1)
                   | Some (e, h) \<Rightarrow>
                       (Normal, w1\<lparr>vscode := h,
                                   masterfile := (masterfile w1)\<lparr>editor := Some e\<rparr>\<rparr>))))"

definition switch_mode :: "env \<Rightarrow> stmt" where
  "switch_mode env w =
     (if \<not> state (config w)
      then run [
             assign (\<lambda>w. w\<lparr>config := (config w)\<lparr>isFeatureEnabled := False\<rparr>\<rparr>),
             call env (ShowInformationMessage SingleMappingEnabled)] w
      else run [
             assign (\<lambda>w. w\<lparr>config := (config w)\<lparr>isFeatureEnabled := False\<rparr>\<rparr>),
             assign (\<lambda>w. w\<lparr>config := (config w)\<lparr>isFeatureEnabled1 := False\<rparr>\<rparr>),
             call env (ShowInformationMessage DoubleMappingActivated)] w)"

definition toggleFeatureCommand1 :: "env \<Rightarrow> world \<Rightarrow> world" where
  "toggleFeatureCommand1 env w =
     (let r = run [
                assign (set_intercept True),
                assign (\<lambda>w. w\<lparr>config := (config w)\<lparr>state := \<not> state (config w)\<rparr>\<rparr>),
                switch_mode env,
                when_stmt (\<lambda>w. Mapping.is_empty (fileLocationsMap w)) (first_build env),
                show_master env] w;
          w2 = (if fst r = Throw
                then (case call env (ShowInformationMessage ConfigError) (snd r) of
                        (Normal, w3) \<Rightarrow> w3\<lparr>config := (config w3)\<lparr>error := True\<rparr>\<rparr>
                      | (_, w3) \<Rightarrow> w3)
                else snd r)
      in set_intercept False w2)"

section \<open>Fixtures\<close>

text \<open>The reference text of three lines \<^verbatim>\<open>a.c:1\<close>, \<^verbatim>\<open>  note\<close>, \<^verbatim>\<open>a.c:2\<close>.\<close>

definition fixture :: string where
  "fixture = ''a.c:1'' @ [LF] @ ''  note'' @ [LF] @ ''a.c:2''"

definition fs_fixture :: "string \<Rightarrow> file_status" where
  "fs_fixture p = (if p = ''ref'' then Content fixture else Missing)"

definition fs_none :: "string \<Rightarrow> file_status" where
  "fs_none p = Missing"

text \<open>A reference text that names line 7 of \<^verbatim>\<open>a.c\<close> on its first and on its third line.\<close>

definition fixture_dup :: string where
  "fixture_dup = ''a.c:7'' @ [LF] @ ''b.c:1'' @ [LF] @ ''a.c:7''"

definition fs_dup :: "string \<Rightarrow> file_status" where
  "fs_dup p = (if p = ''ref'' then Content fixture_dup else Missing)"

text \<open>
  A reference text whose first and third line name two line numbers of \<^verbatim>\<open>a.c\<close> that
  differ as digit strings, \<open>2^53 + 1\<close> and \<open>2^53\<close>, and are the same \<^verbatim>\<open>number\<close>.
\<close>

definition fixture_big :: string where
  "fixture_big = ''a.c:9007199254740993'' @ [LF] @ ''x'' @ [LF] @ ''a.c:9007199254740992''"

definition fs_big :: "string \<Rightarrow> file_status" where
  "fs_big p = (if p = ''ref'' then Content fixture_big else Missing)"

text \<open>A reference text of one line, a Windows path written with a lower-case drive letter
  and backslashes.\<close>

definition path_win :: string where
  "path_win = ''c:'' @ [bs] @ ''src'' @ [bs] @ ''a.c''"

definition fs_win :: "string \<Rightarrow> file_status" where
  "fs_win p = (if p = ''ref'' then Content (path_win @ '':10'') else Missing)"

text \<open>
  A host without failures: editor 0 shows the reference file with the cursor on its third
  line, editor 1 shows \<^verbatim>\<open>a.c\<close> with the cursor on its sixth line. On the decimal digits
  that the path expressions capture, \<^verbatim>\<open>parseInt\<close> and \<^verbatim>\<open>parseFloat\<close> agree with
  \<^verbatim>\<open>parseInt(_, 10)\<close>.
\<close>

definition env0 :: env where
  "env0 = \<lparr>fs = fs_fixture, throws = (\<lambda>e. False), parseInt = parseInt10,
           parseFloat = parseInt10,
           openFileAndJumpToLine = (\<lambda>p n h. (None, h)),
           openTextDocument = (\<lambda>p. Some p),
           showTextDocument = (\<lambda>d h. Some (0, h))\<rparr>"

definition host0 :: vscode where
  "host0 = \<lparr>scheme = (\<lambda>e. ''file''),
            fsPath = (\<lambda>e. if e = 0 then ''ref'' else if e = 1 then ''a.c'' else ''b.c''),
            activeLine = (\<lambda>e. if e = 0 then 2 else if e = 1 then 5 else 0),
            lineTexts = (\<lambda>e. if e = 0 then split_lines fixture else replicate 10 ''x''),
            visibleTextEditors = [0, 1]\<rparr>"

definition index0 :: locindex where
  "index0 =
     snd (extractFileLocations fs_fixture parseInt10 ''ref'' Mapping.empty re_path_unknown re_skip_default)"

definition config0 :: configuration where
  "config0 = \<lparr>filepath = ''ref'', pathRegex = re_path_unknown, skip = re_skip_default,
              osName = ''unknown'', isFeatureEnabled = False, isFeatureEnabled1 = True,
              intercept = False, state = False, error = False\<rparr>"

text \<open>Single mode; the assistant's cursor has moved from line 0 to line 5.\<close>

definition world0 :: world where
  "world0 = \<lparr>masterfile = \<lparr>editor = Some 0, document = Some ''ref'', light = False,
                            line = None, oldlines = Some 2, path = None\<rparr>,
             assistantfile = \<lparr>editor = Some 1, document = None, light = False,
                               line = None, oldlines = Some 0, path = Some ''a.c''\<rparr>,
             config = config0,
             fileLocationsMap = index0,
             currentActiveFileLocationMap =
               (case Mapping.lookup index0 (Some ''a.c'') of
                  Some lm \<Rightarrow> lm
                | None \<Rightarrow> Mapping.empty),
             locationData = None,
             vscode = host0,
             trace = []\<rparr>"

text \<open>Single mode; only the master's cursor has moved, from line 0 to line 2.\<close>

definition world1 :: world where
  "world1 = world0\<lparr>masterfile := (masterfile world0)\<lparr>oldlines := Some 0\<rparr>,
                   assistantfile := (assistantfile world0)\<lparr>oldlines := Some 5\<rparr>\<rparr>"

text \<open>The same in bidirectional mode.\<close>

definition world2 :: world where
  "world2 = world1\<lparr>config := config0\<lparr>isFeatureEnabled1 := False\<rparr>\<rparr>"

text \<open>
  On Windows, with the index of the one-line reference text; the editors other than the
  master show the file that the line names.
\<close>

definition world_win :: world where
  "world_win = world0\<lparr>
     config := config0\<lparr>pathRegex := re_path_windows, osName := ''Windows''\<rparr>,
     fileLocationsMap :=
       snd (extractFileLocations fs_win parseInt10 ''ref'' Mapping.empty re_path_windows re_skip_default),
     vscode := host0\<lparr>fsPath := (\<lambda>e. if e = 0 then ''ref'' else path_win)\<rparr>\<rparr>"

text \<open>A host whose \<^verbatim>\<open>setDecorations\<close> throws on the master, and a lit master.\<close>

definition env_fail :: env where
  "env_fail = env0\<lparr>throws := (\<lambda>e. e = SetDecorations 0 [])\<rparr>"

definition world_lit :: world where
  "world_lit = world0\<lparr>masterfile := (masterfile world0)\<lparr>light := True\<rparr>\<rparr>"

definition world_busy :: world where
  "world_busy = set_intercept True world0"

text \<open>Bidirectional mode, with the master's cursor on a line that names another file.\<close>

definition world3 :: world where
  "world3 = world2\<lparr>vscode := host0\<lparr>
     activeLine := (\<lambda>e. if e = 0 then 1 else if e = 1 then 5 else 0),
     lineTexts := (\<lambda>e. if e = 0 then split_lines fixture_dup else replicate 10 ''x'')\<rparr>\<rparr>"

text \<open>
  Bidirectional mode with the index of the reference text that names \<^verbatim>\<open>a.c\<close> twice and
  \<^verbatim>\<open>b.c\<close> once. The master's cursor has moved to the line that names \<^verbatim>\<open>b.c\<close>; the
  assistant shows \<^verbatim>\<open>a.c\<close> and has not moved; editor 2 shows \<^verbatim>\<open>b.c\<close> with the cursor on
  its fourth line.
\<close>

definition index_dup :: locindex where
  "index_dup =
     snd (extractFileLocations fs_dup parseInt10 ''ref'' Mapping.empty re_path_unknown re_skip_default)"

definition world_dup :: world where
  "world_dup = world2\<lparr>
     fileLocationsMap := index_dup,
     currentActiveFileLocationMap :=
       (case Mapping.lookup index_dup (Some ''a.c'') of
          Some lm \<Rightarrow> lm
        | None \<Rightarrow> Mapping.empty),
     vscode := host0\<lparr>
       activeLine := (\<lambda>e. if e = 0 then 1 else if e = 1 then 5 else 3),
       lineTexts := (\<lambda>e. if e = 0 then split_lines fixture_dup else replicate 10 ''x'')\<rparr>\<rparr>"

text \<open>The same with the highlights of the master and of the assistant on.\<close>

definition world_dup_lit :: world where
  "world_dup_lit = world_dup\<lparr>masterfile := (masterfile world_dup)\<lparr>light := True\<rparr>,
                             assistantfile := (assistantfile world_dup)\<lparr>light := True\<rparr>\<rparr>"

text \<open>A host where \<^verbatim>\<open>openFileAndJumpToLine\<close> gives editor 2.\<close>

definition env1 :: env where
  "env1 = env0\<lparr>openFileAndJumpToLine := (\<lambda>p n h. (Some 2, h))\<rparr>"

section \<open>Notions for the statements\<close>

text \<open>The calls that clear the highlights that are on.\<close>

definition clears :: "world \<Rightarrow> effect list" where
  "clears w =
     (case editor (masterfile w) of
        Some m \<Rightarrow> if light (masterfile w) then [SetDecorations m []] else []
      | None \<Rightarrow> []) @
     (case editor (assistantfile w) of
        Some a \<Rightarrow> if light (assistantfile w) then [SetDecorations a []] else []
      | None \<Rightarrow> [])"

text \<open>The body of the handler up to the direction dispatch, lines 137 to 147.\<close>

definition prelude :: "env \<Rightarrow> editor \<Rightarrow> stmt" where
  "prelude env ev =
     run [
       role_resolution env ev,
       when_stmt (\<lambda>w. editor (assistantfile w) = None \<or> editor (masterfile w) = None) ret,
       when_stmt unchanged_lines ret,
       clear_master env,
       clear_assistant env]"

text \<open>The calls that take the decorations of an editor away.\<close>

definition is_clear :: "effect \<Rightarrow> bool" where
  "is_clear e = (case e of SetDecorations x ds \<Rightarrow> ds = [] | _ \<Rightarrow> False)"

text \<open>
  What the handler leaves alone before the dispatch: the host's state and both previous
  lines; and the calls it adds only take decorations away.
\<close>

definition calm :: "world \<Rightarrow> world \<Rightarrow> bool" where
  "calm a b = (vscode b = vscode a \<and> oldlines (masterfile b) = oldlines (masterfile a) \<and>
               oldlines (assistantfile b) = oldlines (assistantfile a) \<and>
               (\<exists>t. trace b = trace a @ t \<and> list_all is_clear t))"

text \<open>
  The match array of the first line at or above the counter that the skip expression does
  not match and the path expression matches with two groups: what the upward scan of the
  master resolves.
\<close>

fun nearest_match :: "regexp \<Rightarrow> regexp \<Rightarrow> string list \<Rightarrow> nat \<Rightarrow> string option list option" where
  "nearest_match pr sr lines 0 = None"
| "nearest_match pr sr lines (Suc i) =
     (if sr (lines ! i) \<noteq> None then nearest_match pr sr lines i
      else (case pr (lines ! i) of
              Some pathMatch \<Rightarrow>
                if 3 \<le> length pathMatch then Some pathMatch
                else nearest_match pr sr lines i
            | None \<Rightarrow> nearest_match pr sr lines i))"

text \<open>The calls that touch the file system.\<close>

definition is_fs :: "effect \<Rightarrow> bool" where
  "is_fs e = (case e of FsExistsSync p \<Rightarrow> True | FsReadFile p \<Rightarrow> True | _ \<Rightarrow> False)"

text \<open>
  What a statement of the handler leaves alone: the configuration and the index; and it
  only adds calls to the trace, none of them to the file system.
\<close>

definition keeps :: "world \<Rightarrow> world \<Rightarrow> bool" where
  "keeps a b = (config b = config a \<and> fileLocationsMap b = fileLocationsMap a \<and>
                (\<exists>t. trace b = trace a @ t \<and> filter is_fs t = []))"

text \<open>The same for the index alone, once it is not empty.\<close>

definition keeps_index :: "world \<Rightarrow> world \<Rightarrow> bool" where
  "keeps_index a b =
     (\<not> Mapping.is_empty (fileLocationsMap a) \<longrightarrow>
        fileLocationsMap b = fileLocationsMap a \<and>
        (\<exists>t. trace b = trace a @ t \<and> filter is_fs t = []))"

definition extends :: "world \<Rightarrow> world \<Rightarrow> bool" where
  "extends a b = (\<exists>t. trace b = trace a @ t)"

text \<open>The state after the assignments that open \<^verbatim>\<open>jumptrace.close\<close>.\<close>

definition switched_off :: "world \<Rightarrow> world" where
  "switched_off w =
     w\<lparr>config := (config w)\<lparr>isFeatureEnabled := True, isFeatureEnabled1 := True,
                             intercept := True, state := True\<rparr>\<rparr>"

section \<open>Properties of the numbers\<close>

lemma to_double_small: "\<bar>n\<bar> < 2 ^ 53 \<Longrightarrow> to_double n = Num n"
  by (simp add: to_double_def)

lemma to_double_values:
  "to_double (2 ^ 1024 - 2 ^ 970 - 1) = Num (2 ^ 1024 - 2 ^ 971) \<and>
   to_double (2 ^ 1024 - 2 ^ 970) = PosInfinity \<and>
   to_double (- (2 ^ 1024)) = NegInfinity"
  by code_simp

lemma parseInt10_values:
  "parseInt10 None = NaN \<and>
   parseInt10 (Some ''x1'') = NaN \<and>
   parseInt10 (Some '' -12abc'') = Num (- 12) \<and>
   parseInt10 (Some ''+0'') = Num 0 \<and>
   parseInt10 (Some ''9007199254740993'') = Num 9007199254740992 \<and>
   parseInt10 (Some ''9007199254740995'') = Num 9007199254740996 \<and>
   parseInt10 (Some ''18014398509481985'') = Num 18014398509481984"
  by code_simp

section \<open>Properties of the extraction\<close>

lemma lookup_store:
  "lookup_entry (store_entry m p' k' e) p k =
     (if p = p' \<and> k = k' then Some e else lookup_entry m p k)"
  by (auto simp: lookup_entry_def store_entry_def Mapping.lookup_update' split: option.splits)

lemma step_plain:
  "sr (lines ! i) = None \<Longrightarrow> token parse pr sr (lines ! i) = None \<Longrightarrow>
   extract_loop parse pr sr lines (Suc i) lst m = extract_loop parse pr sr lines i (int i) m"
  by (simp add: token_def split: option.splits if_splits)

lemma step_token:
  "token parse pr sr (lines ! i) = Some (p, k) \<Longrightarrow>
   extract_loop parse pr sr lines (Suc i) lst m =
     extract_loop parse pr sr lines i (int i)
       (store_entry m p k \<lparr>originalFileIndex = int i, highlightLineCount = lst - int i\<rparr>)"
  by (auto simp: token_def store_entry_def Let_def split: option.splits if_splits)

text \<open>The three cases of one iteration, for the proofs by induction on the counter.\<close>

lemma step_cases:
  obtains (skipped) "sr (lines ! i) \<noteq> None"
      "\<And>lst m. extract_loop parse pr sr lines (Suc i) lst m = extract_loop parse pr sr lines i lst m"
    | (plain) "sr (lines ! i) = None" "token parse pr sr (lines ! i) = None"
      "\<And>lst m. extract_loop parse pr sr lines (Suc i) lst m = extract_loop parse pr sr lines i (int i) m"
    | (stored) p k where "sr (lines ! i) = None" "token parse pr sr (lines ! i) = Some (p, k)"
      "\<And>lst m. extract_loop parse pr sr lines (Suc i) lst m =
         extract_loop parse pr sr lines i (int i)
           (store_entry m p k \<lparr>originalFileIndex = int i, highlightLineCount = lst - int i\<rparr>)"
proof (cases "sr (lines ! i) \<noteq> None")
  case True
  then show ?thesis using skipped by simp
next
  case False
  then have ns: "sr (lines ! i) = None" by simp
  show ?thesis
  proof (cases "token parse pr sr (lines ! i)")
    case None
    then show ?thesis using plain ns step_plain [where sr=sr and lines=lines and i=i and pr=pr] by blast
  next
    case (Some pk)
    obtain p k where "pk = (p, k)" by (cases pk)
    then have tk: "token parse pr sr (lines ! i) = Some (p, k)" using Some by simp
    show ?thesis
      using stored [OF ns tk] step_token [OF tk] by blast
  qed
qed

lemma extract_loop_other:
  "(\<And>i. i < n \<Longrightarrow> token parse pr sr (lines ! i) \<noteq> Some (p, k)) \<Longrightarrow>
   lookup_entry (extract_loop parse pr sr lines n lst m) p k = lookup_entry m p k"
proof (induction n arbitrary: lst m)
  case 0
  then show ?case by simp
next
  case (Suc n)
  have below: "\<And>i. i < n \<Longrightarrow> token parse pr sr (lines ! i) \<noteq> Some (p, k)"
    using Suc.prems by simp
  have here: "token parse pr sr (lines ! n) \<noteq> Some (p, k)"
    using Suc.prems by simp
  note IH = Suc.IH [OF below]
  show ?case
  proof (cases rule: step_cases [where sr=sr and lines=lines and i=n and pr=pr and parse=parse])
    case skipped
    then show ?thesis by (simp only: IH)
  next
    case plain
    then show ?thesis by (simp only: IH)
  next
    case (stored p' k')
    then have "\<not> (p = p' \<and> k = k')" using here by auto
    then show ?thesis by (simp only: stored(3) IH lookup_store if_False)
  qed
qed

lemma boundary_skip:
  "i < length lines \<Longrightarrow> sr (lines ! i) \<noteq> None \<Longrightarrow> boundary sr lines i = boundary sr lines (Suc i)"
  by (simp add: boundary_def Cons_nth_drop_Suc [symmetric])

lemma boundary_stop:
  "i < length lines \<Longrightarrow> sr (lines ! i) = None \<Longrightarrow> boundary sr lines i = i"
  by (simp add: boundary_def Cons_nth_drop_Suc [symmetric])

lemma extract_loop_entry:
  "n \<le> length lines \<Longrightarrow> lst = int (boundary sr lines n) \<Longrightarrow> i < n \<Longrightarrow>
   token parse pr sr (lines ! i) = Some (p, k) \<Longrightarrow>
   (\<And>j. j < i \<Longrightarrow> token parse pr sr (lines ! j) \<noteq> Some (p, k)) \<Longrightarrow>
   lookup_entry (extract_loop parse pr sr lines n lst m) p k =
     Some \<lparr>originalFileIndex = int i,
           highlightLineCount = int (boundary sr lines (Suc i)) - int i\<rparr>"
proof (induction n arbitrary: lst m)
  case 0
  then show ?case by simp
next
  case (Suc n)
  have nlt: "n < length lines" and nle: "n \<le> length lines" using Suc.prems(1) by simp_all
  show ?case
  proof (cases "i = n")
    case True
    have tk: "token parse pr sr (lines ! n) = Some (p, k)" using Suc.prems(4) True by simp
    have rest: "\<And>j. j < n \<Longrightarrow> token parse pr sr (lines ! j) \<noteq> Some (p, k)"
      using Suc.prems(5) True by simp
    show ?thesis
      unfolding True Suc.prems(2)
      by (simp only: step_token [OF tk] extract_loop_other [OF rest] lookup_store) simp
  next
    case False
    then have lt: "i < n" using Suc.prems(3) by simp
    show ?thesis
    proof (cases rule: step_cases [where sr=sr and lines=lines and i=n and pr=pr and parse=parse])
      case skipped
      have inv: "lst = int (boundary sr lines n)"
        using Suc.prems(2) boundary_skip [where sr=sr and lines=lines and i=n, OF nlt skipped(1)]
        by simp
      show ?thesis
        using Suc.IH [OF nle inv lt Suc.prems(4) Suc.prems(5)] by (simp only: skipped(2))
    next
      case plain
      have inv: "int n = int (boundary sr lines n)"
        using boundary_stop [where sr=sr and lines=lines and i=n, OF nlt plain(1)] by simp
      show ?thesis
        using Suc.IH [OF nle inv lt Suc.prems(4) Suc.prems(5)] by (simp only: plain(3))
    next
      case (stored p' k')
      have inv: "int n = int (boundary sr lines n)"
        using boundary_stop [where sr=sr and lines=lines and i=n, OF nlt stored(1)] by simp
      show ?thesis
        using Suc.IH [OF nle inv lt Suc.prems(4) Suc.prems(5)] by (simp only: stored(3))
    qed
  qed
qed

lemma extract_loop_span:
  "int n \<le> lst \<Longrightarrow> lookup_entry (extract_loop parse pr sr lines n lst m) p k = Some e \<Longrightarrow>
   lookup_entry m p k = Some e \<or> 1 \<le> highlightLineCount e"
proof (induction n arbitrary: lst m)
  case 0
  then show ?case by simp
next
  case (Suc n)
  show ?case
  proof (cases rule: step_cases [where sr=sr and lines=lines and i=n and pr=pr and parse=parse])
    case skipped
    have "lookup_entry (extract_loop parse pr sr lines n lst m) p k = Some e"
      using Suc.prems(2) by (simp only: skipped(2))
    moreover have "int n \<le> lst" using Suc.prems(1) by simp
    ultimately show ?thesis using Suc.IH by blast
  next
    case plain
    have "lookup_entry (extract_loop parse pr sr lines n (int n) m) p k = Some e"
      using Suc.prems(2) by (simp only: plain(3))
    then show ?thesis using Suc.IH [of "int n" m] by simp
  next
    case (stored p' k')
    let ?e = "\<lparr>originalFileIndex = int n, highlightLineCount = lst - int n\<rparr>"
    have "lookup_entry (extract_loop parse pr sr lines n (int n) (store_entry m p' k' ?e)) p k = Some e"
      using Suc.prems(2) by (simp only: stored(3))
    then have "lookup_entry (store_entry m p' k' ?e) p k = Some e \<or> 1 \<le> highlightLineCount e"
      using Suc.IH [of "int n" "store_entry m p' k' ?e"] by simp
    then show ?thesis
      using Suc.prems(1) by (auto simp: lookup_store split: if_splits)
  qed
qed

lemma store_entry_dom:
  "(Mapping.lookup (store_entry m p k e) q \<noteq> None) = (q = p \<or> Mapping.lookup m q \<noteq> None)"
  by (auto simp: store_entry_def Mapping.lookup_update')

lemma extract_loop_keys:
  "(Mapping.lookup (extract_loop parse pr sr lines n lst m) q \<noteq> None) =
     (Mapping.lookup m q \<noteq> None \<or> (\<exists>i<n. \<exists>k. token parse pr sr (lines ! i) = Some (q, k)))"
proof (induction n arbitrary: lst m)
  case 0
  then show ?case by simp
next
  case (Suc n)
  show ?case
  proof (cases rule: step_cases [where sr=sr and lines=lines and i=n and pr=pr and parse=parse])
    case skipped
    then have "token parse pr sr (lines ! n) = None" by (simp add: token_def)
    then have "(\<exists>i<Suc n. \<exists>k. token parse pr sr (lines ! i) = Some (q, k)) =
               (\<exists>i<n. \<exists>k. token parse pr sr (lines ! i) = Some (q, k))"
      by (auto simp: less_Suc_eq)
    then show ?thesis by (simp only: skipped(2) Suc.IH)
  next
    case plain
    then have "(\<exists>i<Suc n. \<exists>k. token parse pr sr (lines ! i) = Some (q, k)) =
               (\<exists>i<n. \<exists>k. token parse pr sr (lines ! i) = Some (q, k))"
      by (auto simp: less_Suc_eq)
    then show ?thesis by (simp only: plain(3) Suc.IH)
  next
    case (stored p' k')
    then have "(\<exists>i<Suc n. \<exists>k. token parse pr sr (lines ! i) = Some (q, k)) =
               (q = p' \<or> (\<exists>i<n. \<exists>k. token parse pr sr (lines ! i) = Some (q, k)))"
      by (auto simp: less_Suc_eq)
    then show ?thesis by (simp only: stored(3) Suc.IH store_entry_dom) blast
  qed
qed

text \<open>
  Claim C1. A line is an occurrence of a key when the skip expression does not match it
  and the path expression matches it with two groups; its key is the captured path with
  the \<^verbatim>\<open>number\<close> that \<^verbatim>\<open>parseInt(_, 10)\<close> gives for the captured digits, so that two
  digit strings with the same \<^verbatim>\<open>number\<close> are one key. Whatever index the extraction starts from and however often a
  key occurs in the reference file, the entry that the index holds for it afterwards is
  that of the topmost occurrence: its offset is the least line with this key, and its
  span reaches to the next line below that the skip expression does not match.
\<close>
theorem topmost_occurrence_retained:
  assumes "fsys cfg = Content text"
    and "i < length (split_lines text)"
    and "token parse pr sr (split_lines text ! i) = Some (p, k)"
    and "\<forall>j<i. token parse pr sr (split_lines text ! j) \<noteq> Some (p, k)"
  shows "lookup_entry (snd (extractFileLocations fsys parse cfg m pr sr)) p k =
         Some \<lparr>originalFileIndex = int i,
               highlightLineCount = int (boundary sr (split_lines text) (Suc i)) - int i\<rparr>"
proof -
  let ?lines = "split_lines text"
  have start: "int (length ?lines) = int (boundary sr ?lines (length ?lines))"
    by (simp add: boundary_def)
  have above: "\<And>j. j < i \<Longrightarrow> token parse pr sr (?lines ! j) \<noteq> Some (p, k)"
    using assms(4) by simp
  have "lookup_entry (extract_loop parse pr sr ?lines (length ?lines) (int (length ?lines)) m) p k =
        Some \<lparr>originalFileIndex = int i,
              highlightLineCount = int (boundary sr ?lines (Suc i)) - int i\<rparr>"
    by (rule extract_loop_entry [OF le_refl start assms(2) assms(3) above])
  then show ?thesis
    using assms(1) by (simp add: extractFileLocations_def Let_def)
qed

theorem topmost_occurrence_retained_witness:
  "token parseInt10 re_path_unknown re_skip_default (split_lines fixture_dup ! 0) = Some (Some ''a.c'', Num 7) \<and>
   token parseInt10 re_path_unknown re_skip_default (split_lines fixture_dup ! 2) = Some (Some ''a.c'', Num 7) \<and>
   lookup_entry (snd (extractFileLocations fs_dup parseInt10 ''ref'' Mapping.empty re_path_unknown re_skip_default))
     (Some ''a.c'') (Num 7) = Some \<lparr>originalFileIndex = 0, highlightLineCount = 1\<rparr> \<and>
   token parseInt10 re_path_unknown re_skip_default (split_lines fixture_big ! 0) =
     Some (Some ''a.c'', Num 9007199254740992) \<and>
   token parseInt10 re_path_unknown re_skip_default (split_lines fixture_big ! 2) =
     Some (Some ''a.c'', Num 9007199254740992) \<and>
   lookup_entry (snd (extractFileLocations fs_big parseInt10 ''ref'' Mapping.empty re_path_unknown re_skip_default))
     (Some ''a.c'') (Num 9007199254740992) = Some \<lparr>originalFileIndex = 0, highlightLineCount = 1\<rparr>"
proof -
  have h1: "fs_dup ''ref'' = Content fixture_dup" by (simp add: fs_dup_def)
  have h2: "0 < length (split_lines fixture_dup)" by code_simp
  have h3: "token parseInt10 re_path_unknown re_skip_default (split_lines fixture_dup ! 0) =
            Some (Some ''a.c'', Num 7)" by code_simp
  have h4: "\<forall>j<0. token parseInt10 re_path_unknown re_skip_default (split_lines fixture_dup ! j) \<noteq>
            Some (Some ''a.c'', Num 7)" by simp
  have h5: "token parseInt10 re_path_unknown re_skip_default (split_lines fixture_dup ! 2) =
            Some (Some ''a.c'', Num 7)" by code_simp
  have b: "boundary re_skip_default (split_lines fixture_dup) (Suc 0) = 1" by code_simp
  have g1: "fs_big ''ref'' = Content fixture_big" by (simp add: fs_big_def)
  have g2: "0 < length (split_lines fixture_big)" by code_simp
  have g3: "token parseInt10 re_path_unknown re_skip_default (split_lines fixture_big ! 0) =
            Some (Some ''a.c'', Num 9007199254740992)" by code_simp
  have g4: "\<forall>j<0. token parseInt10 re_path_unknown re_skip_default (split_lines fixture_big ! j) \<noteq>
            Some (Some ''a.c'', Num 9007199254740992)" by simp
  have g5: "token parseInt10 re_path_unknown re_skip_default (split_lines fixture_big ! 2) =
            Some (Some ''a.c'', Num 9007199254740992)" by code_simp
  have c: "boundary re_skip_default (split_lines fixture_big) (Suc 0) = 1" by code_simp
  show ?thesis
    using topmost_occurrence_retained [where fsys=fs_dup and cfg="''ref''" and i=0
        and m=Mapping.empty, OF h1 h2 h3 h4]
      topmost_occurrence_retained [where fsys=fs_big and cfg="''ref''" and i=0
        and m=Mapping.empty, OF g1 g2 g3 g4] h3 h5 b g3 g5 c by simp
qed

text \<open>
  Claim C9. For every reference file, path expression and skip expression, an entry of the
  index after the extraction is an entry that the index had before, under the same key,
  or its span is at least one: every entry that the extraction stores has
  \<open>highlightLineCount \<ge> 1\<close>.
\<close>
theorem stored_span_positive:
  assumes "lookup_entry (snd (extractFileLocations fsys parse cfg m pr sr)) p k = Some e"
  shows "lookup_entry m p k = Some e \<or> 1 \<le> highlightLineCount e"
proof (cases "fsys cfg")
  case Missing
  then show ?thesis using assms by (simp add: extractFileLocations_def)
next
  case (Unreadable err)
  then show ?thesis using assms by (simp add: extractFileLocations_def)
next
  case (Content c)
  then have "lookup_entry (extract_loop parse pr sr (split_lines c) (length (split_lines c))
               (int (length (split_lines c))) m) p k = Some e"
    using assms by (simp add: extractFileLocations_def Let_def)
  then show ?thesis
    by (rule extract_loop_span [rotated]) simp
qed

theorem stored_span_positive_witness:
  "lookup_entry (snd (extractFileLocations fs_fixture parseInt10 ''ref'' Mapping.empty re_path_unknown re_skip_default))
     (Some ''a.c'') (Num 1) = Some \<lparr>originalFileIndex = 0, highlightLineCount = 2\<rparr> \<and>
   (1::int) \<le> highlightLineCount \<lparr>originalFileIndex = 0, highlightLineCount = 2\<rparr>"
proof -
  have h: "lookup_entry
        (snd (extractFileLocations fs_fixture parseInt10 ''ref'' Mapping.empty re_path_unknown re_skip_default))
        (Some ''a.c'') (Num 1) = Some \<lparr>originalFileIndex = 0, highlightLineCount = 2\<rparr>"
    by code_simp
  show ?thesis
    using stored_span_positive [OF h] h by (simp add: lookup_entry_def)
qed

text \<open>
  Claim C6. When the reference file does not exist or cannot be read, the extraction shows
  an error message and returns the index that it was given, unchanged.
\<close>
theorem extraction_failure_keeps_index:
  assumes "fsys cfg = Missing \<or> fsys cfg = Unreadable err"
  shows "snd (extractFileLocations fsys parse cfg m pr sr) = m \<and>
         (\<exists>msg. ShowErrorMessage msg \<in> set (fst (extractFileLocations fsys parse cfg m pr sr)))"
  using assms by (auto simp: extractFileLocations_def)

theorem extraction_failure_keeps_index_witness:
  "fs_none ''ref'' = Missing \<and>
   snd (extractFileLocations fs_none parseInt10 ''ref'' Mapping.empty re_path_unknown re_skip_default) = Mapping.empty \<and>
   ShowErrorMessage (FileNotFound ''ref'') \<in>
     set (fst (extractFileLocations fs_none parseInt10 ''ref'' Mapping.empty re_path_unknown re_skip_default))"
proof -
  have h: "fs_none ''ref'' = Missing \<or> fs_none ''ref'' = Unreadable []"
    by (simp add: fs_none_def)
  show ?thesis
    using extraction_failure_keeps_index [where fsys=fs_none and cfg="''ref''"
        and m=Mapping.empty and pr=re_path_unknown and sr=re_skip_default, OF h]
    by (simp add: fs_none_def extractFileLocations_def)
qed

text \<open>
  On the three lines \<^verbatim>\<open>a.c:1\<close>, \<^verbatim>\<open>  note\<close>, \<^verbatim>\<open>a.c:2\<close> the entry of line 1 of \<^verbatim>\<open>a.c\<close>
  is not the pair of offset 0 and span 3.
\<close>
theorem span_fixture_counterexample:
  "lookup_entry (snd (extractFileLocations fs_fixture parseInt10 ''ref'' Mapping.empty re_path_unknown re_skip_default))
     (Some ''a.c'') (Num 1) \<noteq> Some \<lparr>originalFileIndex = 0, highlightLineCount = 3\<rparr>"
  by code_simp

text \<open>
  Claim C2, as the code has it. The three lines \<^verbatim>\<open>a.c:1\<close>, \<^verbatim>\<open>  note\<close>, \<^verbatim>\<open>a.c:2\<close> give
  exactly two entries: line 1 of \<^verbatim>\<open>a.c\<close> at offset 0 with span 2 (its own line and the
  skipped one; the token line below ends it), and line 2 at offset 2 with span 1. The
  claimed span 3 for the first entry is refuted just above.
\<close>
theorem span_fixture_entries:
  "snd (extractFileLocations fs_fixture parseInt10 ''ref'' Mapping.empty re_path_unknown re_skip_default) =
     Mapping.update (Some ''a.c'')
       (Mapping.update (Num 1) \<lparr>originalFileIndex = 0, highlightLineCount = 2\<rparr>
         (Mapping.update (Num 2) \<lparr>originalFileIndex = 2, highlightLineCount = 1\<rparr>
            Mapping.empty))
       Mapping.empty"
  by code_simp

section \<open>Properties of the path normalisation\<close>

lemma slash_idem: "map slash (map slash p) = map slash p"
  by (induction p) (simp_all add: slash_def bs_def)

lemma upper_is_upper: "is_lower d \<or> is_upper d \<Longrightarrow> is_upper (toUpperCase d)"
  by (auto simp: toUpperCase_def is_lower_def is_upper_def)

lemma upper_not_lower: "is_lower d \<or> is_upper d \<Longrightarrow> \<not> is_lower (toUpperCase d)"
  by (auto simp: toUpperCase_def is_lower_def is_upper_def)

lemma upper_not_bs: "is_upper d \<Longrightarrow> d \<noteq> bs"
  by (auto simp: is_upper_def bs_def)

lemma upper_fixed: "\<not> is_lower d \<Longrightarrow> toUpperCase d = d"
  by (simp add: toUpperCase_def)

lemma normalize_other:
  "p \<noteq> [] \<Longrightarrow> os \<noteq> ''Windows'' \<Longrightarrow> getActiveEditorFilePath os p = Some (map slash p)"
  unfolding getActiveEditorFilePath_def Let_def by simp

lemma normalize_drive:
  "drive_form (map slash p) d rest \<Longrightarrow>
   getActiveEditorFilePath ''Windows'' p = Some (toUpperCase d # CHR '':'' # CHR ''/'' # rest)"
  unfolding getActiveEditorFilePath_def Let_def drive_form_def
  by (cases p) auto

lemma normalize_plain_aux:
  "(\<And>d rest. \<not> drive_form np d rest) \<Longrightarrow>
   (case np of
      d # c # s # rest \<Rightarrow>
        if (is_lower d \<or> is_upper d) \<and> c = CHR '':'' \<and> s = CHR ''/''
           \<and> list_all (\<lambda>x. \<not> is_line_terminator x) rest
        then Some ([toUpperCase d] @ '':'' @ (s # rest))
        else Some np
    | _ \<Rightarrow> Some np) = Some np"
  by (auto simp: drive_form_def split: list.splits)

lemma normalize_plain:
  "p \<noteq> [] \<Longrightarrow> (\<And>d rest. \<not> drive_form (map slash p) d rest) \<Longrightarrow>
   getActiveEditorFilePath ''Windows'' p = Some (map slash p)"
proof -
  assume ne: "p \<noteq> []" and no: "\<And>d rest. \<not> drive_form (map slash p) d rest"
  show ?thesis
    unfolding getActiveEditorFilePath_def Let_def
    using ne by (simp only: normalize_plain_aux [of "map slash p", OF no] if_False if_True refl)
qed

lemma drive_form_upper:
  assumes "drive_form (map slash p) d rest"
  shows "drive_form (map slash (toUpperCase d # CHR '':'' # CHR ''/'' # rest)) (toUpperCase d) rest"
proof -
  have eq: "map slash p = d # CHR '':'' # CHR ''/'' # rest"
    using assms by (simp add: drive_form_def)
  have "map slash (map slash p) = map slash p" by (rule slash_idem)
  then have "map slash (d # CHR '':'' # CHR ''/'' # rest) = d # CHR '':'' # CHR ''/'' # rest"
    unfolding eq .
  then have rest: "map slash rest = rest" by simp
  have letter: "is_lower d \<or> is_upper d" using assms by (simp add: drive_form_def)
  have up: "is_upper (toUpperCase d)" using letter by (rule upper_is_upper)
  have "slash (toUpperCase d) = toUpperCase d"
    using upper_not_bs [OF up] by (simp add: slash_def)
  then show ?thesis
    using rest up assms by (simp add: drive_form_def slash_def bs_def)
qed

lemma normalize_idem:
  assumes "getActiveEditorFilePath os p = Some q"
  shows "getActiveEditorFilePath os q = Some q"
proof -
  have ne: "p \<noteq> []" using assms by (auto simp: getActiveEditorFilePath_def split: if_splits)
  show ?thesis
  proof (cases "os = ''Windows''")
    case False
    then have q: "q = map slash p" using assms normalize_other [OF ne False] by simp
    then have qne: "q \<noteq> []" using ne by simp
    have fixed: "map slash q = q" unfolding q by (rule slash_idem)
    show ?thesis using normalize_other [OF qne False] fixed by simp
  next
    case True
    show ?thesis
    proof (cases "\<exists>d rest. drive_form (map slash p) d rest")
      case True
      then obtain d rest where df: "drive_form (map slash p) d rest" by blast
      have q: "q = toUpperCase d # CHR '':'' # CHR ''/'' # rest"
        using assms normalize_drive [OF df] \<open>os = ''Windows''\<close> by simp
      have letter: "is_lower d \<or> is_upper d" using df by (simp add: drive_form_def)
      have "toUpperCase (toUpperCase d) = toUpperCase d"
        using upper_not_lower [OF letter] by (rule upper_fixed)
      then show ?thesis
        using normalize_drive [OF drive_form_upper [OF df]] q \<open>os = ''Windows''\<close> by simp
    next
      case False
      then have no: "\<And>d rest. \<not> drive_form (map slash p) d rest" by blast
      have q: "q = map slash p"
        using assms normalize_plain [OF ne no] \<open>os = ''Windows''\<close> by simp
      have qne: "q \<noteq> []" using q ne by simp
      have fixed: "map slash q = q" unfolding q by (rule slash_idem)
      have "\<And>d rest. \<not> drive_form (map slash q) d rest"
        unfolding fixed using no q by simp
      then show ?thesis
        using normalize_plain [OF qne] fixed \<open>os = ''Windows''\<close> by simp
    qed
  qed
qed

text \<open>
  Claim C8. The normalisation is idempotent: normalising a result again gives the same
  result, with \<^verbatim>\<open>undefined\<close> mapped to \<^verbatim>\<open>undefined\<close>. With the operating system name
  \<^verbatim>\<open>Windows\<close>, the path \<^verbatim>\<open>c:/x\<close> and the path of \<^verbatim>\<open>C:\<close>, a backslash and \<^verbatim>\<open>x\<close> both
  normalise to \<^verbatim>\<open>C:/x\<close>. The empty path gives \<^verbatim>\<open>undefined\<close>.
\<close>
theorem normalization_idempotent:
  "(case getActiveEditorFilePath os p of
      None \<Rightarrow> None
    | Some q \<Rightarrow> getActiveEditorFilePath os q) = getActiveEditorFilePath os p \<and>
   getActiveEditorFilePath ''Windows'' ''c:/x'' =
     getActiveEditorFilePath ''Windows'' (''C:'' @ [bs] @ ''x'') \<and>
   getActiveEditorFilePath ''Windows'' ''c:/x'' = Some ''C:/x'' \<and>
   getActiveEditorFilePath os [] = None"
proof -
  have a: "(case getActiveEditorFilePath os p of None \<Rightarrow> None
            | Some q \<Rightarrow> getActiveEditorFilePath os q) = getActiveEditorFilePath os p"
    by (cases "getActiveEditorFilePath os p") (simp_all add: normalize_idem)
  have b: "getActiveEditorFilePath ''Windows'' ''c:/x'' = Some ''C:/x''" by code_simp
  have c: "getActiveEditorFilePath ''Windows'' (''C:'' @ [bs] @ ''x'') = Some ''C:/x''"
    by code_simp
  have d: "getActiveEditorFilePath os [] = None" by (simp add: getActiveEditorFilePath_def)
  show ?thesis using a b c d by simp
qed

section \<open>Properties of the selection change handler\<close>

lemmas stmt_defs = assign_def ret_def when_stmt_def emit_def call_def with_editor_def

lemma run_single: "run [s] w = s w"
proof (cases "s w")
  case (Pair c w')
  then show ?thesis by (cases c) simp_all
qed

lemma run_assign: "run (assign f # ss) w = run ss (f w)"
  by (simp add: assign_def)

lemma role_resolution_known:
  "editor (masterfile w) = Some ev \<or> editor (assistantfile w) = Some ev \<Longrightarrow>
   role_resolution env ev w = (Normal, w)"
  by (auto simp: role_resolution_def when_stmt_def)

lemma editors_present:
  "editor (masterfile w) = Some m \<Longrightarrow> editor (assistantfile w) = Some a \<Longrightarrow>
   when_stmt (\<lambda>w. editor (assistantfile w) = None \<or> editor (masterfile w) = None) ret w =
     (Normal, w)"
  by (simp add: when_stmt_def)

lemma clear_master_result:
  "editor (masterfile w) = Some m \<Longrightarrow> \<not> throws env (SetDecorations m []) \<Longrightarrow>
   clear_master env w =
     (Normal, w\<lparr>masterfile := (masterfile w)\<lparr>light := False\<rparr>,
                trace := trace w @ (if light (masterfile w) then [SetDecorations m []] else [])\<rparr>)"
  by (simp add: clear_master_def stmt_defs)

lemma clear_assistant_result:
  "editor (assistantfile w) = Some a \<Longrightarrow> \<not> throws env (SetDecorations a []) \<Longrightarrow>
   clear_assistant env w =
     (Normal, w\<lparr>assistantfile := (assistantfile w)\<lparr>light := False\<rparr>,
                trace := trace w @ (if light (assistantfile w) then [SetDecorations a []] else [])\<rparr>)"
  by (simp add: clear_assistant_def stmt_defs)

lemma assistant_to_master_miss:
  "editor (assistantfile w) = Some a \<Longrightarrow>
   Mapping.lookup (currentActiveFileLocationMap w) (to_double (int (activeLine (vscode w) a) + 1)) = None \<Longrightarrow>
   assistant_to_master env w =
     (Return, w\<lparr>assistantfile := (assistantfile w)
                  \<lparr>oldlines := Some (activeLine (vscode w) a),
                   line := Some (to_double (int (activeLine (vscode w) a)))\<rparr>,
                locationData := None\<rparr>)"
  by (simp add: assistant_to_master_def stmt_defs)

lemma run_rel:
  assumes refl: "\<And>w. R w w" and trans: "\<And>a b c. R a b \<Longrightarrow> R b c \<Longrightarrow> R a c"
    and each: "\<And>s w. s \<in> set ss \<Longrightarrow> R w (snd (s w))"
  shows "R w (snd (run ss w))"
  using each
proof (induction ss arbitrary: w)
  case Nil
  then show ?case by (simp add: refl)
next
  case (Cons s ss)
  obtain c w' where sw: "s w = (c, w')" by (cases "s w")
  have here: "R w w'" using Cons.prems [of s w] sw by simp
  show ?case
  proof (cases c)
    case Normal
    have "R w' (snd (run ss w'))" using Cons.IH Cons.prems by simp
    then show ?thesis using sw Normal here trans by auto
  next
    case Return
    then show ?thesis using sw here by simp
  next
    case Throw
    then show ?thesis using sw here by simp
  qed
qed

lemma keeps_refl: "keeps w w"
  by (simp add: keeps_def)

lemma keeps_trans: "keeps a b \<Longrightarrow> keeps b c \<Longrightarrow> keeps a c"
  by (auto simp: keeps_def)

lemma keeps_run: "(\<And>s w. s \<in> set ss \<Longrightarrow> keeps w (snd (s w))) \<Longrightarrow> keeps w (snd (run ss w))"
  by (rule run_rel [where R=keeps, OF keeps_refl keeps_trans])

lemma keeps_call: "\<not> is_fs e \<Longrightarrow> keeps w (snd (call env e w))"
  by (simp add: keeps_def call_def emit_def)

lemma keeps_emit: "\<not> is_fs e \<Longrightarrow> keeps w (snd (emit e w))"
  by (simp add: keeps_def emit_def)

lemma keeps_ret: "keeps w (snd (ret w))"
  by (simp add: keeps_def ret_def)

lemma keeps_when: "(\<And>w. keeps w (snd (s w))) \<Longrightarrow> keeps w (snd (when_stmt b s w))"
  by (simp add: when_stmt_def keeps_refl)

lemma keeps_with_editor: "(\<And>e w. keeps w (snd (s e w))) \<Longrightarrow> keeps w (snd (with_editor d s w))"
  by (simp add: with_editor_def keeps_refl split: option.splits)

lemma keeps_assign:
  "config (f w) = config w \<Longrightarrow> fileLocationsMap (f w) = fileLocationsMap w \<Longrightarrow>
   trace (f w) = trace w \<Longrightarrow> keeps w (snd (assign f w))"
  by (simp add: keeps_def assign_def)

lemma keeps_clear_master: "keeps w (snd (clear_master env w))"
  unfolding clear_master_def
  by (intro keeps_when keeps_run) (auto intro!: keeps_with_editor keeps_call keeps_assign simp: is_fs_def)

lemma keeps_clear_assistant: "keeps w (snd (clear_assistant env w))"
  unfolding clear_assistant_def
  by (intro keeps_when keeps_run) (auto intro!: keeps_with_editor keeps_call keeps_assign simp: is_fs_def)

lemma keeps_role_resolution: "keeps w (snd (role_resolution env ev w))"
  unfolding role_resolution_def
  by (intro keeps_when keeps_run)
     (auto intro!: keeps_assign keeps_ret keeps_when split: option.splits)

lemma keeps_assistant_to_master: "keeps w (snd (assistant_to_master env w))"
  unfolding assistant_to_master_def
  by (intro keeps_with_editor keeps_run)
     (auto intro!: keeps_assign keeps_ret keeps_with_editor keeps_call simp: is_fs_def
           split: option.splits)

lemma keeps_same_file: "keeps w (snd (same_file env pm w))"
  unfolding same_file_def
  by (intro keeps_run) (auto intro!: keeps_assign keeps_with_editor keeps_call simp: is_fs_def)

lemma keeps_commit: "keeps w (snd (commit w))"
  unfolding commit_def
  by (intro keeps_run)
     (auto intro!: keeps_assign keeps_with_editor keeps_emit keeps_refl simp: is_fs_def
           split: option.splits)

lemma keeps_other_file: "keeps w (snd (other_file env pm w))"
proof -
  let ?target = "minus1 (parseInt env (pm ! 2))"
  let ?opened = "openFileAndJumpToLine env (pm ! 1) ?target (vscode w)"
  let ?w1 = "w\<lparr>vscode := snd ?opened,
               trace := trace w @ [OpenFileAndJumpToLine (pm ! 1) ?target]\<rparr>"
  have first: "keeps w ?w1" by (simp add: keeps_def is_fs_def)
  show ?thesis
  proof (cases "fst ?opened")
    case None
    then show ?thesis using first by (simp add: other_file_def Let_def ret_def)
  next
    case (Some e)
    have "keeps ?w1 (snd (other_file env pm w))"
      unfolding other_file_def Let_def Some option.case
      by (intro keeps_run)
         (auto intro!: keeps_assign keeps_ret keeps_when keeps_call keeps_refl simp: is_fs_def
               split: option.splits)
    then show ?thesis using first keeps_trans by blast
  qed
qed

lemma keeps_scan: "keeps w (snd (scan env m n w))"
proof (induction n)
  case 0
  then show ?case by (simp add: keeps_refl)
next
  case (Suc n)
  then show ?case
    by (auto simp: keeps_refl keeps_same_file keeps_other_file Let_def split: option.splits)
qed

lemma keeps_master_to_assistant: "keeps w (snd (master_to_assistant env w))"
  unfolding master_to_assistant_def
  by (intro keeps_with_editor keeps_run) (auto intro!: keeps_assign keeps_scan simp del: scan.simps)

lemma keeps_dispatch: "keeps w (snd (dispatch env w))"
  unfolding dispatch_def
  by (intro keeps_with_editor)
     (simp add: keeps_assistant_to_master keeps_master_to_assistant keeps_ret)

lemma keeps_body: "keeps w (snd (body env ev w))"
  unfolding body_def
  by (intro keeps_run)
     (auto intro!: keeps_role_resolution keeps_when keeps_ret keeps_clear_master
        keeps_clear_assistant keeps_dispatch keeps_commit)

lemma body_holds_latch: "intercept (config (snd (body env ev (set_intercept True w))))"
  using keeps_body [of "set_intercept True w" env ev]
  by (simp add: keeps_def set_intercept_def)

lemma run_append:
  "run (ss @ ts) w = (case run ss w of (Normal, w') \<Rightarrow> run ts w' | r \<Rightarrow> r)"
proof (induction ss arbitrary: w)
  case Nil
  then show ?case by simp
next
  case (Cons s ss)
  obtain c w' where sw: "s w = (c, w')" by (cases "s w")
  show ?case using sw Cons.IH by (cases c) simp_all
qed

lemma scan_split:
  "scan env m n w =
     (case scan_begin env m n w of Inl r \<Rightarrow> r | Inr (pm, ws) \<Rightarrow> other_file env pm ws)"
  by (induction n) (auto simp: Let_def split: option.splits)

lemma dispatch_split:
  "dispatch env w =
     (case dispatch_begin env w of Inl r \<Rightarrow> r | Inr (pm, ws) \<Rightarrow> other_file env pm ws)"
  by (simp add: dispatch_def dispatch_begin_def master_to_assistant_def with_editor_def
      run_assign run_single scan_split del: run.simps scan.simps scan_begin.simps
      split: option.splits)

lemma handler_split:
  "selectionChange env ev w =
     (case selectionChange_begin env ev w of
        Inl w' \<Rightarrow> w'
      | Inr (pm, ws) \<Rightarrow> selectionChange_resume env pm ws)"
proof (cases "isFeatureEnabled (config w) \<or> scheme (vscode w) ev \<noteq> ''file''
         \<or> intercept (config w) \<or> error (config w)")
  case True
  then show ?thesis by (simp add: selectionChange_def selectionChange_begin_def)
next
  case False
  let ?pre = "[role_resolution env ev,
               when_stmt (\<lambda>w. editor (assistantfile w) = None \<or> editor (masterfile w) = None) ret,
               when_stmt unchanged_lines ret,
               clear_master env,
               clear_assistant env]"
  have b: "body env ev = run (?pre @ [dispatch env, commit])"
    by (simp add: body_def fun_eq_iff)
  have sel: "selectionChange env ev w = finish env (body env ev (set_intercept True w))"
    using False by (simp add: selectionChange_def finish_def Let_def)
  obtain c w3 where pre: "run ?pre (set_intercept True w) = (c, w3)"
    by (cases "run ?pre (set_intercept True w)")
  show ?thesis
  proof (cases c)
    case Normal
    have body3: "body env ev (set_intercept True w) = run [dispatch env, commit] w3"
      unfolding b run_append pre Normal by simp
    show ?thesis
    proof (cases "dispatch_begin env w3")
      case (Inl r)
      obtain c4 w4 where r: "r = (c4, w4)" by (cases r)
      have d: "dispatch env w3 = (c4, w4)" using Inl r by (simp add: dispatch_split)
      show ?thesis
        using False pre Normal Inl r d
        by (cases c4)
           (simp_all add: sel body3 selectionChange_begin_def run_single
              del: run.simps add: run.simps(2) [of "dispatch env" "[commit]"])
    next
      case (Inr suspended)
      obtain pm ws where s: "suspended = (pm, ws)" by (cases suspended)
      have d: "dispatch env w3 = other_file env pm ws" using Inr s by (simp add: dispatch_split)
      have "run [dispatch env, commit] w3 =
            (case other_file env pm ws of (Normal, w4) \<Rightarrow> commit w4 | r \<Rightarrow> r)"
      proof (cases "other_file env pm ws")
        case (Pair c5 w5)
        then show ?thesis
          using d by (cases c5) (simp_all add: run_single
              del: run.simps add: run.simps(2) [of "dispatch env" "[commit]"])
      qed
      then show ?thesis
        using False pre Normal Inr s
        by (simp add: sel body3 selectionChange_begin_def selectionChange_resume_def
            del: run.simps)
    qed
  next
    case Return
    have "body env ev (set_intercept True w) = (Return, w3)"
      unfolding b run_append pre Return by simp
    then show ?thesis
      using False pre Return by (simp add: sel selectionChange_begin_def del: run.simps)
  next
    case Throw
    have "body env ev (set_intercept True w) = (Throw, w3)"
      unfolding b run_append pre Throw by simp
    then show ?thesis
      using False pre Throw by (simp add: sel selectionChange_begin_def del: run.simps)
  qed
qed

lemma scan_begin_suspended: "scan_begin env m n w = Inr (pm, ws) \<Longrightarrow> ws = w"
  by (induction n) (auto simp: Let_def split: if_splits option.splits)

lemma dispatch_begin_suspended:
  "dispatch_begin env w = Inr (pm, ws) \<Longrightarrow> config ws = config w"
  by (auto simp: dispatch_begin_def split: option.splits if_splits dest!: scan_begin_suspended
      simp del: scan_begin.simps)

lemma finish_releases: "\<not> intercept (config (finish env r))"
  by (simp add: finish_def set_intercept_def)

lemma prefix_keeps:
  "keeps w (snd (run [role_resolution env ev,
                   when_stmt (\<lambda>w. editor (assistantfile w) = None \<or> editor (masterfile w) = None) ret,
                   when_stmt unchanged_lines ret,
                   clear_master env,
                   clear_assistant env] w))"
  by (intro keeps_run)
     (auto intro!: keeps_role_resolution keeps_when keeps_ret keeps_clear_master
        keeps_clear_assistant)

lemma begin_suspended_latch:
  assumes "selectionChange_begin env ev w = Inr (pm, ws)"
  shows "intercept (config ws)"
proof -
  let ?pre = "[role_resolution env ev,
               when_stmt (\<lambda>w. editor (assistantfile w) = None \<or> editor (masterfile w) = None) ret,
               when_stmt unchanged_lines ret,
               clear_master env,
               clear_assistant env]"
  have guard: "\<not> (isFeatureEnabled (config w) \<or> scheme (vscode w) ev \<noteq> ''file''
         \<or> intercept (config w) \<or> error (config w))"
    using assms by (auto simp: selectionChange_begin_def simp del: run.simps split: if_splits)
  obtain c w3 where pre: "run ?pre (set_intercept True w) = (c, w3)"
    by (cases "run ?pre (set_intercept True w)")
  have "keeps (set_intercept True w) w3"
    using prefix_keeps [of "set_intercept True w" env ev] pre by simp
  then have latch3: "intercept (config w3)"
    by (simp add: keeps_def set_intercept_def)
  have "dispatch_begin env w3 = Inr (pm, ws)"
    using assms guard pre
    by (cases c; cases "dispatch_begin env w3")
       (auto simp: selectionChange_begin_def simp del: run.simps
          split: prod.splits completion.splits)
  then show ?thesis
    using dispatch_begin_suspended latch3 by metis
qed

text \<open>
  Claim C4. An event that arrives while the latch is held leaves the whole state as it is,
  the list of host calls included: it is dropped and nothing is queued. When the handler
  is suspended at its \<^verbatim>\<open>await\<close>, the latch is held, so every event that arrives in that
  state is dropped. An invocation that found the latch free and ended without suspension
  leaves the latch free, whether its body ran to the end, returned early or threw; so
  does the resumed rest of the handler, from whatever state it is resumed in. The body,
  started with the latch held, ends with the latch held. The handler in one piece is
  its part up to the suspension followed at once by the rest.
\<close>
theorem latch_drops_and_releases:
  "(intercept (config w) \<longrightarrow> selectionChange_begin env ev w = Inl w) \<and>
   (\<forall>pm ws. selectionChange_begin env ev w = Inr (pm, ws) \<longrightarrow>
      intercept (config ws) \<and> (\<forall>ev'. selectionChange_begin env ev' ws = Inl ws)) \<and>
   (\<forall>w'. \<not> intercept (config w) \<longrightarrow> selectionChange_begin env ev w = Inl w' \<longrightarrow>
      \<not> intercept (config w')) \<and>
   \<not> intercept (config (selectionChange_resume env pm' ws')) \<and>
   intercept (config (snd (body env ev (set_intercept True w)))) \<and>
   selectionChange env ev w =
     (case selectionChange_begin env ev w of
        Inl w' \<Rightarrow> w'
      | Inr (pm, ws) \<Rightarrow> selectionChange_resume env pm ws)"
proof -
  have dropped: "\<And>v ev'. intercept (config v) \<Longrightarrow> selectionChange_begin env ev' v = Inl v"
    by (simp add: selectionChange_begin_def)
  have held: "\<And>pm ws. selectionChange_begin env ev w = Inr (pm, ws) \<Longrightarrow> intercept (config ws)"
    by (rule begin_suspended_latch)
  have released: "\<And>w'. \<not> intercept (config w) \<Longrightarrow> selectionChange_begin env ev w = Inl w' \<Longrightarrow>
      \<not> intercept (config w')"
    by (auto simp: selectionChange_begin_def finish_releases simp del: run.simps
        split: if_splits prod.splits completion.splits sum.splits)
  have resumed: "\<not> intercept (config (selectionChange_resume env pm' ws'))"
    by (simp add: selectionChange_resume_def finish_releases)
  show ?thesis
    using dropped held released resumed body_holds_latch [of env ev w] handler_split [of env ev w]
    by blast
qed

theorem latch_drops_and_releases_witness:
  "selectionChange env0 1 world_busy = world_busy \<and>
   (\<exists>pm ws. selectionChange_begin env0 0 world3 = Inr (pm, ws) \<and> intercept (config ws) \<and>
      selectionChange_begin env0 0 ws = Inl ws \<and> selectionChange_begin env0 1 ws = Inl ws \<and>
      \<not> intercept (config (selectionChange_resume env0 pm ws))) \<and>
   \<not> intercept (config (selectionChange env0 1 world0)) \<and>
   \<not> intercept (config (selectionChange env_fail 1 world_lit)) \<and>
   trace (selectionChange env_fail 1 world_lit) = [ShowInformationMessage ExecutionFailed]"
proof -
  have busy: "intercept (config world_busy)"
    by (simp add: world_busy_def set_intercept_def)
  have a: "selectionChange env0 1 world_busy = world_busy"
    using latch_drops_and_releases [of world_busy env0 1] busy by simp
  have "case selectionChange_begin env0 0 world3 of Inl _ \<Rightarrow> False | Inr _ \<Rightarrow> True"
    by code_simp
  then obtain pm ws where susp: "selectionChange_begin env0 0 world3 = Inr (pm, ws)"
    by (cases "selectionChange_begin env0 0 world3") auto
  have b: "intercept (config ws) \<and> selectionChange_begin env0 0 ws = Inl ws \<and>
           selectionChange_begin env0 1 ws = Inl ws \<and>
           \<not> intercept (config (selectionChange_resume env0 pm ws))"
    using latch_drops_and_releases [of world3 env0 0 pm ws] susp by blast
  have free: "\<not> intercept (config world0)" "\<not> intercept (config world_lit)"
    by (simp_all add: world0_def world_lit_def config0_def)
  have c: "\<not> intercept (config (selectionChange env0 1 world0))"
    "\<not> intercept (config (selectionChange env_fail 1 world_lit))"
    using latch_drops_and_releases [of world0 env0 1] latch_drops_and_releases [of world_lit env_fail 1]
      free
    by (auto split: sum.splits)
  have thrown: "trace (selectionChange env_fail 1 world_lit) =
                [ShowInformationMessage ExecutionFailed]"
    by code_simp
  show ?thesis
    using a susp b c thrown by blast
qed

lemma calm_refl: "calm w w"
  by (simp add: calm_def)

lemma calm_trans: "calm a b \<Longrightarrow> calm b c \<Longrightarrow> calm a c"
  by (auto simp: calm_def)

lemma calm_run: "(\<And>s w. s \<in> set ss \<Longrightarrow> calm w (snd (s w))) \<Longrightarrow> calm w (snd (run ss w))"
  by (rule run_rel [where R=calm]) (auto intro: calm_refl calm_trans)

lemma calm_role_resolution: "calm w (snd (role_resolution env ev w))"
  unfolding role_resolution_def when_stmt_def
  by (auto intro!: calm_run calm_refl simp: stmt_defs calm_def split: option.splits)

lemma calm_clear_master: "calm w (snd (clear_master env w))"
  unfolding clear_master_def when_stmt_def
  by (auto intro!: calm_run calm_refl simp: stmt_defs calm_def is_clear_def split: option.splits)

lemma calm_clear_assistant: "calm w (snd (clear_assistant env w))"
  unfolding clear_assistant_def when_stmt_def
  by (auto intro!: calm_run calm_refl simp: stmt_defs calm_def is_clear_def split: option.splits)

lemma calm_prelude: "calm w (snd (prelude env ev w))"
  unfolding prelude_def
  by (intro calm_run)
     (auto intro!: calm_role_resolution calm_clear_master calm_clear_assistant calm_refl
           simp: when_stmt_def ret_def)

lemma body_prelude:
  "body env ev w =
     (case prelude env ev w of (Normal, w3) \<Rightarrow> run [dispatch env, commit] w3 | r \<Rightarrow> r)"
proof -
  have "body env ev = run ([role_resolution env ev,
       when_stmt (\<lambda>w. editor (assistantfile w) = None \<or> editor (masterfile w) = None) ret,
       when_stmt unchanged_lines ret,
       clear_master env,
       clear_assistant env] @ [dispatch env, commit])"
    by (simp add: body_def)
  then show ?thesis
    by (simp only: run_append prelude_def)
qed

text \<open>
  Claim C5, as the code has it. An event passes the guard and the handler reaches the
  direction dispatch, in the state \<open>w3\<close>; there the assistant's line differs from its
  previous line and the active map has no entry for that line plus one. Then the handler
  returns from the dispatch: the state it leaves is \<open>w3\<close> with the latch released, with
  \<^verbatim>\<open>locationData\<close> undefined and with the assistant's line and previous line set to its
  current line (line 149 assigns the previous line before the lookup). In this cycle
  the host is called only to take decorations away: there is no reveal, no highlight, no
  file opened and no message. The master's previous line is as before the event; the
  assistant's previous line was not its current line before the event and is it after.
  This holds for an event of the master, of the assistant and of a third editor that
  becomes the assistant, and for every host.
\<close>
theorem tracker_advanced_on_miss:
  assumes guard: "\<not> isFeatureEnabled (config w)" "scheme (vscode w) ev = ''file''"
      "\<not> intercept (config w)" "\<not> error (config w)"
    and reach: "prelude env ev (set_intercept True w) = (Normal, w3)"
    and asst: "editor (assistantfile w3) = Some a"
    and moved: "oldlines (assistantfile w3) \<noteq> Some (activeLine (vscode w3) a)"
    and miss: "Mapping.lookup (currentActiveFileLocationMap w3)
                 (to_double (int (activeLine (vscode w3) a) + 1)) = None"
  shows "selectionChange env ev w =
           set_intercept False
             (w3\<lparr>assistantfile := (assistantfile w3)
                   \<lparr>oldlines := Some (activeLine (vscode w3) a),
                    line := Some (to_double (int (activeLine (vscode w3) a)))\<rparr>,
                 locationData := None\<rparr>) \<and>
         (\<exists>t. trace (selectionChange env ev w) = trace w @ t \<and> list_all is_clear t) \<and>
         oldlines (masterfile (selectionChange env ev w)) = oldlines (masterfile w) \<and>
         oldlines (assistantfile w) \<noteq> Some (activeLine (vscode w) a) \<and>
         oldlines (assistantfile (selectionChange env ev w)) = Some (activeLine (vscode w) a)"
proof -
  define w4 where "w4 = w3\<lparr>assistantfile := (assistantfile w3)
                   \<lparr>oldlines := Some (activeLine (vscode w3) a),
                    line := Some (to_double (int (activeLine (vscode w3) a)))\<rparr>,
                 locationData := None\<rparr>"
  have s6: "dispatch env w3 = (Return, w4)"
    using asst moved assistant_to_master_miss [OF asst miss, of env]
    by (simp add: dispatch_def with_editor_def w4_def)
  have b: "body env ev (set_intercept True w) = (Return, w4)"
    by (simp add: body_prelude reach s6)
  have sel: "selectionChange env ev w = set_intercept False w4"
    using guard b by (simp add: selectionChange_def)
  have c: "calm (set_intercept True w) w3"
    using calm_prelude [of "set_intercept True w" env ev] by (simp add: reach)
  then have same: "vscode w3 = vscode w" "oldlines (masterfile w3) = oldlines (masterfile w)"
    "oldlines (assistantfile w3) = oldlines (assistantfile w)"
    by (simp_all add: calm_def set_intercept_def)
  obtain t where t: "trace w3 = trace w @ t" "list_all is_clear t"
    using c by (auto simp: calm_def set_intercept_def)
  have tr: "\<exists>t. trace (selectionChange env ev w) = trace w @ t \<and> list_all is_clear t"
    using t by (simp add: sel w4_def set_intercept_def)
  have om: "oldlines (masterfile (selectionChange env ev w)) = oldlines (masterfile w)"
    using same by (simp add: sel w4_def set_intercept_def)
  have before: "oldlines (assistantfile w) \<noteq> Some (activeLine (vscode w) a)"
    using moved same by simp
  have oa: "oldlines (assistantfile (selectionChange env ev w)) = Some (activeLine (vscode w) a)"
    using same by (simp add: sel w4_def set_intercept_def)
  show ?thesis
    using sel tr om before oa by (simp only: w4_def simp_thms)
qed

theorem tracker_advanced_on_miss_witness:
  "oldlines (assistantfile world0) = Some 0 \<and>
   oldlines (assistantfile (selectionChange env0 1 world0)) = Some 5 \<and>
   oldlines (masterfile (selectionChange env0 1 world0)) = Some 2 \<and>
   editor (assistantfile world_dup) = Some 1 \<and>
   oldlines (assistantfile world_dup) = Some 5 \<and>
   editor (assistantfile (selectionChange env0 2 world_dup)) = Some 2 \<and>
   oldlines (assistantfile (selectionChange env0 2 world_dup)) = Some 3 \<and>
   oldlines (masterfile (selectionChange env0 2 world_dup)) = Some 0 \<and>
   oldlines (assistantfile (selectionChange env0 2 world_dup_lit)) = Some 3 \<and>
   trace (selectionChange env0 2 world_dup_lit) = [SetDecorations 0 [], SetDecorations 2 []]"
proof -
  define u where "u = snd (prelude env0 1 (set_intercept True world0))"
  define v where "v = snd (prelude env0 2 (set_intercept True world_dup))"
  define x where "x = snd (prelude env0 2 (set_intercept True world_dup_lit))"
  have g: "\<not> isFeatureEnabled (config world0)" "scheme (vscode world0) 1 = ''file''"
    "\<not> intercept (config world0)" "\<not> error (config world0)"
    by (simp_all add: world0_def config0_def host0_def)
  have "fst (prelude env0 1 (set_intercept True world0)) = Normal" by code_simp
  then have ru: "prelude env0 1 (set_intercept True world0) = (Normal, u)"
    by (simp add: u_def prod_eq_iff)
  have au: "editor (assistantfile u) = Some 1" unfolding u_def by code_simp
  have mu: "oldlines (assistantfile u) \<noteq> Some (activeLine (vscode u) 1)"
    unfolding u_def by code_simp
  have su: "Mapping.lookup (currentActiveFileLocationMap u)
              (to_double (int (activeLine (vscode u) 1) + 1)) = None"
    unfolding u_def by code_simp
  have h: "\<not> isFeatureEnabled (config world_dup)" "scheme (vscode world_dup) 2 = ''file''"
    "\<not> intercept (config world_dup)" "\<not> error (config world_dup)"
    by (simp_all add: world_dup_def world2_def world1_def world0_def config0_def host0_def)
  have "fst (prelude env0 2 (set_intercept True world_dup)) = Normal" by code_simp
  then have rv: "prelude env0 2 (set_intercept True world_dup) = (Normal, v)"
    by (simp add: v_def prod_eq_iff)
  have av: "editor (assistantfile v) = Some 2" unfolding v_def by code_simp
  have mv: "oldlines (assistantfile v) \<noteq> Some (activeLine (vscode v) 2)"
    unfolding v_def by code_simp
  have sv: "Mapping.lookup (currentActiveFileLocationMap v)
              (to_double (int (activeLine (vscode v) 2) + 1)) = None"
    unfolding v_def by code_simp
  have k: "\<not> isFeatureEnabled (config world_dup_lit)" "scheme (vscode world_dup_lit) 2 = ''file''"
    "\<not> intercept (config world_dup_lit)" "\<not> error (config world_dup_lit)"
    by (simp_all add: world_dup_lit_def world_dup_def world2_def world1_def world0_def
        config0_def host0_def)
  have "fst (prelude env0 2 (set_intercept True world_dup_lit)) = Normal" by code_simp
  then have rx: "prelude env0 2 (set_intercept True world_dup_lit) = (Normal, x)"
    by (simp add: x_def prod_eq_iff)
  have ax: "editor (assistantfile x) = Some 2" unfolding x_def by code_simp
  have mx: "oldlines (assistantfile x) \<noteq> Some (activeLine (vscode x) 2)"
    unfolding x_def by code_simp
  have sx: "Mapping.lookup (currentActiveFileLocationMap x)
              (to_double (int (activeLine (vscode x) 2) + 1)) = None"
    unfolding x_def by code_simp
  have tx: "trace x = [SetDecorations 0 [], SetDecorations 2 []]"
    unfolding x_def by code_simp
  have l0: "activeLine (vscode world0) 1 = 5" "oldlines (masterfile world0) = Some 2"
    "oldlines (assistantfile world0) = Some 0"
    by (simp_all add: world0_def host0_def)
  have l1: "activeLine (vscode world_dup) 2 = 3" "oldlines (masterfile world_dup) = Some 0"
    "editor (assistantfile world_dup) = Some 1" "oldlines (assistantfile world_dup) = Some 5"
    by (simp_all add: world_dup_def world2_def world1_def world0_def host0_def)
  have l2: "activeLine (vscode world_dup_lit) 2 = 3"
    by (simp add: world_dup_lit_def world_dup_def world2_def world1_def world0_def host0_def)
  note t0 = tracker_advanced_on_miss [OF g ru au mu su]
  note t1 = tracker_advanced_on_miss [OF h rv av mv sv]
  note t2 = tracker_advanced_on_miss [OF k rx ax mx sx]
  have e1: "editor (assistantfile (selectionChange env0 2 world_dup)) = Some 2"
    using t1 [THEN conjunct1] av by (simp add: set_intercept_def)
  have e2: "trace (selectionChange env0 2 world_dup_lit) = [SetDecorations 0 [], SetDecorations 2 []]"
    using t2 [THEN conjunct1] tx by (simp add: set_intercept_def)
  have e3: "oldlines (assistantfile (selectionChange env0 2 world_dup_lit)) = Some 3"
    using t2 [THEN conjunct2] l2 by simp
  show ?thesis
    using t0 [THEN conjunct2] t1 [THEN conjunct2] e1 e2 e3 l0 l1 by simp
qed

text \<open>
  The assistant's previous line is 0, its cursor is on line 5 and the active map has no
  entry for line 6: after the event the previous line is 5.
\<close>
theorem tracker_counterexample:
  "oldlines (assistantfile world0) = Some 0 \<and>
   Mapping.lookup (currentActiveFileLocationMap world0)
     (to_double (int (activeLine (vscode world0) 1) + 1)) = None \<and>
   oldlines (assistantfile (selectionChange env0 1 world0)) = Some 5"
  by code_simp

lemma scan_nearest:
  "n \<le> length (lineTexts (vscode w) m) \<Longrightarrow>
   scan env m n w =
     (case nearest_match (pathRegex (config w)) (skip (config w)) (lineTexts (vscode w) m) n of
        None \<Rightarrow> (Normal, w)
      | Some pm \<Rightarrow>
          if pm ! 1 = path (assistantfile w) then same_file env pm w else other_file env pm w)"
  by (induction n) (auto simp: Let_def split: option.splits)

lemma same_file_result:
  "editor (assistantfile w) = Some a \<Longrightarrow>
   \<not> throws env (RevealRange a (minus1 (parseFloat env (pm ! 2)))) \<Longrightarrow>
   fst (same_file env pm w) = Normal \<and>
   RevealRange a (minus1 (parseFloat env (pm ! 2))) \<in> set (trace (snd (same_file env pm w)))"
  by (simp add: same_file_def stmt_defs)

lemma other_file_opens:
  "OpenFileAndJumpToLine (pm ! 1) (minus1 (parseInt env (pm ! 2)))
     \<in> set (trace (snd (other_file env pm w)))"
proof -
  let ?target = "minus1 (parseInt env (pm ! 2))"
  let ?opened = "openFileAndJumpToLine env (pm ! 1) ?target (vscode w)"
  let ?w1 = "w\<lparr>vscode := snd ?opened,
               trace := trace w @ [OpenFileAndJumpToLine (pm ! 1) ?target]\<rparr>"
  have "keeps ?w1 (snd (other_file env pm w))"
  proof (cases "fst ?opened")
    case None
    then show ?thesis by (simp add: other_file_def Let_def ret_def keeps_refl)
  next
    case (Some e)
    show ?thesis
      unfolding other_file_def Let_def Some option.case
      by (intro keeps_run)
         (auto intro!: keeps_assign keeps_ret keeps_when keeps_call keeps_refl simp: is_fs_def
               split: option.splits)
  qed
  then show ?thesis by (auto simp: keeps_def)
qed

lemma keeps_trace: "keeps a b \<Longrightarrow> e \<in> set (trace a) \<Longrightarrow> e \<in> set (trace b)"
  by (auto simp: keeps_def)

lemma finish_return: "finish env (Return, x) = set_intercept False x"
  by (simp add: finish_def)

lemma finish_frame:
  "locationData (finish env r) = locationData (snd r) \<and>
   currentActiveFileLocationMap (finish env r) = currentActiveFileLocationMap (snd r) \<and>
   line (assistantfile (finish env r)) = line (assistantfile (snd r)) \<and>
   editor (assistantfile (finish env r)) = editor (assistantfile (snd r)) \<and>
   path (assistantfile (finish env r)) = path (assistantfile (snd r))"
  by (simp add: finish_def call_def emit_def set_intercept_def)

lemma commit_frame:
  "locationData (snd (commit w)) = locationData w \<and>
   currentActiveFileLocationMap (snd (commit w)) = currentActiveFileLocationMap w \<and>
   line (assistantfile (snd (commit w))) = line (assistantfile w) \<and>
   editor (assistantfile (snd (commit w))) = editor (assistantfile w) \<and>
   path (assistantfile (snd (commit w))) = path (assistantfile w)"
  by (simp add: commit_def stmt_defs split: option.splits)

lemma same_file_exact:
  "editor (assistantfile w) = Some a \<Longrightarrow>
   \<not> throws env (RevealRange a (minus1 (parseFloat env (pm ! 2)))) \<Longrightarrow>
   same_file env pm w =
     (Normal, w\<lparr>assistantfile := (assistantfile w)
                  \<lparr>line := Some (minus1 (parseFloat env (pm ! 2)))\<rparr>,
                locationData :=
                  Mapping.lookup (currentActiveFileLocationMap w) (parseInt env (pm ! 2)),
                trace := trace w @ [RevealRange a (minus1 (parseFloat env (pm ! 2)))]\<rparr>)"
  by (simp add: same_file_def stmt_defs)

lemma other_file_exact:
  assumes quiet: "\<forall>e. \<not> throws env e"
  shows "other_file env pm w =
     (let target = minus1 (parseInt env (pm ! 2));
          opened = openFileAndJumpToLine env (pm ! 1) target (vscode w);
          w5 = w\<lparr>vscode := snd opened,
                 trace := trace w @ [OpenFileAndJumpToLine (pm ! 1) target]\<rparr>
      in case fst opened of
           None \<Rightarrow> (Return, w5)
         | Some e \<Rightarrow>
             (let p = getActiveEditorFilePath (osName (config w)) (fsPath (snd opened) e);
                  w6 = w5\<lparr>assistantfile := (assistantfile w5)\<lparr>editor := Some e, path := p\<rparr>\<rparr>
              in case p of
                   None \<Rightarrow> (Return, w6)
                 | Some q \<Rightarrow>
                     if q = [] then (Return, w6)
                     else
                       (case Mapping.lookup (fileLocationsMap w) (pm ! 1) of
                          None \<Rightarrow> (Return, w6\<lparr>trace := trace w6 @ [LoggerLog q]\<rparr>)
                        | Some oncemap \<Rightarrow>
                            (Normal, w6\<lparr>
                               assistantfile := (assistantfile w6)
                                 \<lparr>line := Some (minus1 (parseFloat env (pm ! 2)))\<rparr>,
                               currentActiveFileLocationMap := oncemap,
                               locationData := Mapping.lookup oncemap (parseInt env (pm ! 2)),
                               trace := trace w6 @ [LoggerLog q]\<rparr>))))"
  using quiet by (simp add: other_file_def stmt_defs falsy_def Let_def split: option.splits)

text \<open>
  Claim C7. An event of the master or of the assistant passes the guard, the assistant's
  line is its previous line, the master's line is not, and the host does not throw. In
  single mode the handler only clears the highlights that are on: no reveal, no
  highlight, no file opened, and the assistant's state, the active map and
  \<^verbatim>\<open>locationData\<close> are as before. In bidirectional mode the upward scan of the master
  runs from the state \<open>w4\<close>, in which the highlights are cleared and the master's previous
  line is its current line. Without a matching line the handler goes on to line 179 from
  \<open>w4\<close>. With the matching line nearest to the cursor, and the path and the line number
  that it captures:

  \<^item> if the captured path is the assistant's path, \<^verbatim>\<open>locationData\<close> becomes the entry of
    the active map for the captured line number, the assistant's line becomes that
    number minus one and is revealed in the assistant, and the handler goes on to line
    179; the assistant's editor and the active map are as before;

  \<^item> otherwise the captured file is opened at the captured line number minus one.
    Without an editor the handler returns. With an editor, it becomes the assistant's
    editor and its normalised path the assistant's path; the handler returns when that
    path is empty, and after logging it when the index has no map for the captured
    path as it is written. With such a map, it becomes the active map, \<^verbatim>\<open>locationData\<close>
    becomes its entry for the captured line number, the assistant's line becomes that
    number minus one, and the handler goes on to line 179.

  The handler's state after the event is given in each case; lines 179 to 184 and the
  \<^verbatim>\<open>finally\<close> leave \<^verbatim>\<open>locationData\<close>, the active map and the assistant's line, editor and
  path as the resolution has set them.
\<close>
theorem mode_gating:
  assumes guard: "\<not> isFeatureEnabled (config w)" "scheme (vscode w) ev = ''file''"
      "\<not> intercept (config w)" "\<not> error (config w)"
    and roles: "editor (masterfile w) = Some m" "editor (assistantfile w) = Some a"
      "ev = m \<or> ev = a"
    and still: "oldlines (assistantfile w) = Some (activeLine (vscode w) a)"
    and moved: "oldlines (masterfile w) \<noteq> Some (activeLine (vscode w) m)"
    and inside: "activeLine (vscode w) m < length (lineTexts (vscode w) m)"
    and quiet: "\<forall>e. \<not> throws env e"
  shows "(isFeatureEnabled1 (config w) \<longrightarrow>
            selectionChange env ev w =
              w\<lparr>masterfile := (masterfile w)\<lparr>light := False\<rparr>,
                assistantfile := (assistantfile w)\<lparr>light := False\<rparr>,
                trace := trace w @ clears w\<rparr>) \<and>
         (\<not> isFeatureEnabled1 (config w) \<longrightarrow>
            (\<forall>pm. nearest_match (pathRegex (config w)) (skip (config w))
                    (lineTexts (vscode w) m) (Suc (activeLine (vscode w) m)) = Some pm \<longrightarrow>
                  (if pm ! 1 = path (assistantfile w)
                   then RevealRange a (minus1 (parseFloat env (pm ! 2)))
                   else OpenFileAndJumpToLine (pm ! 1) (minus1 (parseInt env (pm ! 2))))
                  \<in> set (trace (selectionChange env ev w)))) \<and>
         (\<not> isFeatureEnabled1 (config w) \<longrightarrow>
            (let w4 = w\<lparr>config := (config w)\<lparr>intercept := True\<rparr>,
                        masterfile := (masterfile w)
                          \<lparr>light := False, oldlines := Some (activeLine (vscode w) m)\<rparr>,
                        assistantfile := (assistantfile w)\<lparr>light := False\<rparr>,
                        trace := trace w @ clears w\<rparr>
             in (nearest_match (pathRegex (config w)) (skip (config w))
                   (lineTexts (vscode w) m) (Suc (activeLine (vscode w) m)) = None \<longrightarrow>
                 selectionChange env ev w = finish env (commit w4)) \<and>
                (\<forall>pm. nearest_match (pathRegex (config w)) (skip (config w))
                        (lineTexts (vscode w) m) (Suc (activeLine (vscode w) m)) = Some pm \<longrightarrow>
                   (let lineNumber = parseInt env (pm ! 2);
                        target = minus1 (parseFloat env (pm ! 2));
                        opened = openFileAndJumpToLine env (pm ! 1) (minus1 lineNumber) (vscode w);
                        w5 = w4\<lparr>vscode := snd opened,
                                 trace := trace w4 @
                                   [OpenFileAndJumpToLine (pm ! 1) (minus1 lineNumber)]\<rparr>
                    in (pm ! 1 = path (assistantfile w) \<longrightarrow>
                          selectionChange env ev w =
                            finish env (commit (w4\<lparr>
                              assistantfile := (assistantfile w4)\<lparr>line := Some target\<rparr>,
                              locationData :=
                                Mapping.lookup (currentActiveFileLocationMap w) lineNumber,
                              trace := trace w4 @ [RevealRange a target]\<rparr>)) \<and>
                          locationData (selectionChange env ev w) =
                            Mapping.lookup (currentActiveFileLocationMap w) lineNumber \<and>
                          line (assistantfile (selectionChange env ev w)) = Some target \<and>
                          editor (assistantfile (selectionChange env ev w)) = Some a \<and>
                          currentActiveFileLocationMap (selectionChange env ev w) =
                            currentActiveFileLocationMap w) \<and>
                       (pm ! 1 \<noteq> path (assistantfile w) \<longrightarrow>
                          (fst opened = None \<longrightarrow>
                             selectionChange env ev w = set_intercept False w5) \<and>
                          (\<forall>onceeditor. fst opened = Some onceeditor \<longrightarrow>
                             (let p = getActiveEditorFilePath (osName (config w))
                                        (fsPath (snd opened) onceeditor);
                                  w6 = w5\<lparr>assistantfile := (assistantfile w5)
                                            \<lparr>editor := Some onceeditor, path := p\<rparr>\<rparr>
                              in (falsy p \<longrightarrow>
                                    selectionChange env ev w = set_intercept False w6) \<and>
                                 (\<forall>q. p = Some q \<longrightarrow> q \<noteq> [] \<longrightarrow>
                                    (Mapping.lookup (fileLocationsMap w) (pm ! 1) = None \<longrightarrow>
                                       selectionChange env ev w =
                                         set_intercept False
                                           (w6\<lparr>trace := trace w6 @ [LoggerLog q]\<rparr>)) \<and>
                                    (\<forall>oncemap.
                                       Mapping.lookup (fileLocationsMap w) (pm ! 1) = Some oncemap \<longrightarrow>
                                       selectionChange env ev w =
                                         finish env (commit (w6\<lparr>
                                           assistantfile := (assistantfile w6)\<lparr>line := Some target\<rparr>,
                                           currentActiveFileLocationMap := oncemap,
                                           locationData := Mapping.lookup oncemap lineNumber,
                                           trace := trace w6 @ [LoggerLog q]\<rparr>)) \<and>
                                       currentActiveFileLocationMap (selectionChange env ev w) =
                                         oncemap \<and>
                                       locationData (selectionChange env ev w) =
                                         Mapping.lookup oncemap lineNumber \<and>
                                       line (assistantfile (selectionChange env ev w)) =
                                         Some target \<and>
                                       editor (assistantfile (selectionChange env ev w)) =
                                         Some onceeditor \<and>
                                       path (assistantfile (selectionChange env ev w)) =
                                         Some q)))))))))"
    (is "?single \<and> ?nav \<and> (_ \<longrightarrow> ?resolution)")
proof -
  define w1 where "w1 = set_intercept True w"
  define w2 where "w2 = w1\<lparr>masterfile := (masterfile w1)\<lparr>light := False\<rparr>,
    trace := trace w1 @ (if light (masterfile w1) then [SetDecorations m []] else [])\<rparr>"
  define w3 where "w3 = w2\<lparr>assistantfile := (assistantfile w2)\<lparr>light := False\<rparr>,
    trace := trace w2 @ (if light (assistantfile w2) then [SetDecorations a []] else [])\<rparr>"
  have m1: "editor (masterfile w1) = Some m" and a1: "editor (assistantfile w1) = Some a"
    using roles by (simp_all add: w1_def set_intercept_def)
  have s1: "role_resolution env ev w1 = (Normal, w1)"
    using roles m1 a1 by (intro role_resolution_known) auto
  have s2: "when_stmt (\<lambda>w. editor (assistantfile w) = None \<or> editor (masterfile w) = None) ret w1
            = (Normal, w1)"
    using m1 a1 by (rule editors_present)
  have s3: "when_stmt unchanged_lines ret w1 = (Normal, w1)"
    using moved roles by (auto simp: when_stmt_def unchanged_lines_def w1_def set_intercept_def)
  have s4: "clear_master env w1 = (Normal, w2)"
    unfolding w2_def using quiet by (intro clear_master_result [OF m1]) simp
  have a2: "editor (assistantfile w2) = Some a" using a1 by (simp add: w2_def)
  have s5: "clear_assistant env w2 = (Normal, w3)"
    unfolding w3_def using quiet by (intro clear_assistant_result [OF a2]) simp
  have a3: "editor (assistantfile w3) = Some a" using a2 by (simp add: w3_def)
  have m3: "editor (masterfile w3) = Some m" using m1 by (simp add: w3_def w2_def)
  have old3: "oldlines (assistantfile w3) = Some (activeLine (vscode w3) a)"
    using still by (simp add: w3_def w2_def w1_def set_intercept_def)
  have b: "body env ev w1 = run [dispatch env, commit] w3"
    unfolding body_def by (simp add: s1 s2 s3 s4 s5)
  have sel: "selectionChange env ev w =
      (let r = body env ev w1;
           w2 = (if fst r = Throw
                 then snd (call env (ShowInformationMessage ExecutionFailed) (snd r))
                 else snd r)
       in set_intercept False w2)"
    using guard by (simp add: selectionChange_def w1_def)
  have old: "?single \<and> ?nav"
  proof (intro conjI impI allI)
    assume single: "isFeatureEnabled1 (config w)"
    then have "isFeatureEnabled1 (config w3)"
      by (simp add: w3_def w2_def w1_def set_intercept_def)
    then have s6: "dispatch env w3 = (Return, w3)"
      using a3 old3 by (simp add: dispatch_def with_editor_def ret_def)
    have "selectionChange env ev w = set_intercept False w3"
      by (simp add: sel b s6)
    also have "\<dots> = w\<lparr>masterfile := (masterfile w)\<lparr>light := False\<rparr>,
                assistantfile := (assistantfile w)\<lparr>light := False\<rparr>,
                trace := trace w @ clears w\<rparr>"
      using guard(3) roles(1,2)
      by (intro world.equality configuration.equality)
         (simp_all add: w3_def w2_def w1_def set_intercept_def clears_def)
    finally show "selectionChange env ev w =
              w\<lparr>masterfile := (masterfile w)\<lparr>light := False\<rparr>,
                assistantfile := (assistantfile w)\<lparr>light := False\<rparr>,
                trace := trace w @ clears w\<rparr>" .
  next
    fix pm
    assume double: "\<not> isFeatureEnabled1 (config w)"
      and near: "nearest_match (pathRegex (config w)) (skip (config w))
                    (lineTexts (vscode w) m) (Suc (activeLine (vscode w) m)) = Some pm"
    define nav where "nav = (if pm ! 1 = path (assistantfile w)
                then RevealRange a (minus1 (parseFloat env (pm ! 2)))
                else OpenFileAndJumpToLine (pm ! 1) (minus1 (parseInt env (pm ! 2))))"
    define w4 where "w4 = w3\<lparr>masterfile := (masterfile w3)
         \<lparr>oldlines := Some (activeLine (vscode w3) m)\<rparr>\<rparr>"
    have d3: "\<not> isFeatureEnabled1 (config w3)"
      using double by (simp add: w3_def w2_def w1_def set_intercept_def)
    have same4: "pathRegex (config w4) = pathRegex (config w)" "skip (config w4) = skip (config w)"
      "vscode w4 = vscode w" "vscode w3 = vscode w" "path (assistantfile w4) = path (assistantfile w)"
      "editor (assistantfile w4) = Some a"
      using roles by (simp_all add: w4_def w3_def w2_def w1_def set_intercept_def)
    have s6: "dispatch env w3 = scan env m (Suc (activeLine (vscode w) m)) w4"
      using a3 m3 old3 d3
      by (simp add: dispatch_def master_to_assistant_def with_editor_def w4_def same4
          run_assign run_single del: scan.simps run.simps)
    have range: "Suc (activeLine (vscode w) m) \<le> length (lineTexts (vscode w4) m)"
      using inside by (simp add: same4)
    have s7: "scan env m (Suc (activeLine (vscode w) m)) w4 =
              (if pm ! 1 = path (assistantfile w) then same_file env pm w4
               else other_file env pm w4)"
      using scan_nearest [OF range, of env] near by (simp add: same4 del: scan.simps)
    have s8: "dispatch env w3 =
              (if pm ! 1 = path (assistantfile w) then same_file env pm w4
               else other_file env pm w4)"
      by (simp only: s6 s7)
    have nav: "nav \<in> set (trace (snd (dispatch env w3)))"
    proof (cases "pm ! 1 = path (assistantfile w)")
      case True
      have "\<not> throws env (RevealRange a (minus1 (parseFloat env (pm ! 2))))"
        using quiet by simp
      then have "RevealRange a (minus1 (parseFloat env (pm ! 2)))
                   \<in> set (trace (snd (same_file env pm w4)))"
        using same_file_result [OF same4(6)] by blast
      then show ?thesis using True by (simp add: s8 nav_def)
    next
      case False
      then show ?thesis
        using other_file_opens [of pm env w4] by (simp add: s8 nav_def)
    qed
    have "keeps (snd (dispatch env w3)) (snd (run [dispatch env, commit] w3))"
    proof (cases "dispatch env w3")
      case (Pair c w5)
      then show ?thesis
        using keeps_commit [of w5]
        by (cases c) (simp_all add: keeps_refl run_single del: run.simps add: run.simps(2) [of _ "[commit]"])
    qed
    then have inbody: "nav \<in> set (trace (snd (body env ev w1)))"
      using nav keeps_trace by (simp add: b)
    have "keeps (snd (body env ev w1)) (snd (call env (ShowInformationMessage ExecutionFailed)
            (snd (body env ev w1))))"
      by (rule keeps_call) (simp add: is_fs_def)
    then have "nav \<in> set (trace (snd (call env (ShowInformationMessage ExecutionFailed)
            (snd (body env ev w1)))))"
      using inbody keeps_trace by blast
    then have "nav \<in> set (trace (selectionChange env ev w))"
      using inbody by (simp add: sel Let_def set_intercept_def)
    then show "(if pm ! 1 = path (assistantfile w)
                then RevealRange a (minus1 (parseFloat env (pm ! 2)))
                else OpenFileAndJumpToLine (pm ! 1) (minus1 (parseInt env (pm ! 2))))
               \<in> set (trace (selectionChange env ev w))"
      by (simp only: nav_def)
  qed
  have new: "\<not> isFeatureEnabled1 (config w) \<longrightarrow> ?resolution"
  proof (intro impI)
    assume double: "\<not> isFeatureEnabled1 (config w)"
    let ?W4 = "w\<lparr>config := (config w)\<lparr>intercept := True\<rparr>,
                 masterfile := (masterfile w)
                   \<lparr>light := False, oldlines := Some (activeLine (vscode w) m)\<rparr>,
                 assistantfile := (assistantfile w)\<lparr>light := False\<rparr>,
                 trace := trace w @ clears w\<rparr>"
    have d3: "\<not> isFeatureEnabled1 (config w3)"
      using double by (simp add: w3_def w2_def w1_def set_intercept_def)
    have w4: "w3\<lparr>masterfile := (masterfile w3)\<lparr>oldlines := Some (activeLine (vscode w3) m)\<rparr>\<rparr> = ?W4"
      using roles(1,2)
      by (intro world.equality document.equality)
         (simp_all add: w3_def w2_def w1_def set_intercept_def clears_def)
    have v3: "vscode w3 = vscode w"
      by (simp add: w3_def w2_def w1_def set_intercept_def)
    have s6: "dispatch env w3 = scan env m (Suc (activeLine (vscode w) m)) ?W4"
      using a3 m3 old3 d3
      by (simp add: dispatch_def master_to_assistant_def with_editor_def run_assign run_single
          w4 [symmetric] v3 del: scan.simps run.simps)
    have range: "Suc (activeLine (vscode w) m) \<le> length (lineTexts (vscode ?W4) m)"
      using inside by simp
    have s7: "dispatch env w3 =
        (case nearest_match (pathRegex (config w)) (skip (config w)) (lineTexts (vscode w) m)
                (Suc (activeLine (vscode w) m)) of
           None \<Rightarrow> (Normal, ?W4)
         | Some pm \<Rightarrow>
             if pm ! 1 = path (assistantfile w) then same_file env pm ?W4
             else other_file env pm ?W4)"
      using scan_nearest [OF range, of env]
      by (simp add: s6 del: scan.simps nearest_match.simps split: option.splits)
    have fin: "selectionChange env ev w =
        finish env (case dispatch env w3 of (Normal, w') \<Rightarrow> commit w' | r \<Rightarrow> r)"
    proof (cases "dispatch env w3")
      case (Pair c w5)
      then show ?thesis
        by (cases c) (simp_all add: sel b finish_def Let_def run_single del: run.simps
            add: run.simps(2) [of _ "[commit]"])
    qed
    have a4: "editor (assistantfile ?W4) = Some a" using roles(2) by simp
    have rev: "\<And>pm. same_file env pm ?W4 = (Normal, ?W4\<lparr>
          assistantfile := (assistantfile ?W4)\<lparr>line := Some (minus1 (parseFloat env (pm ! 2)))\<rparr>,
          locationData := Mapping.lookup (currentActiveFileLocationMap w) (parseInt env (pm ! 2)),
          trace := trace ?W4 @ [RevealRange a (minus1 (parseFloat env (pm ! 2)))]\<rparr>)"
      using quiet by (simp add: same_file_exact [OF a4])
    note facts = fin s7 rev other_file_exact [OF quiet] finish_return finish_frame commit_frame
    show ?resolution
      unfolding Let_def
      apply (intro conjI impI allI)
      subgoal by (simp add: facts del: nearest_match.simps)
      subgoal for pm by (simp add: facts del: nearest_match.simps)
      subgoal for pm by (simp add: facts del: nearest_match.simps)
      subgoal for pm by (simp add: facts del: nearest_match.simps)
      subgoal for pm using roles(2) by (simp add: facts del: nearest_match.simps)
      subgoal for pm by (simp add: facts del: nearest_match.simps)
      subgoal for pm by (simp add: facts Let_def del: nearest_match.simps)
      subgoal for pm e by (auto simp add: facts Let_def falsy_def simp del: nearest_match.simps)
      subgoal for pm e q by (simp add: facts Let_def del: nearest_match.simps)
      subgoal for pm e q oncemap by (simp add: facts Let_def del: nearest_match.simps)
      subgoal for pm e q oncemap by (simp add: facts Let_def del: nearest_match.simps)
      subgoal for pm e q oncemap by (simp add: facts Let_def del: nearest_match.simps)
      subgoal for pm e q oncemap by (simp add: facts Let_def del: nearest_match.simps)
      subgoal for pm e q oncemap by (simp add: facts Let_def del: nearest_match.simps)
      subgoal for pm e q oncemap by (simp add: facts Let_def del: nearest_match.simps)
      done
  qed
  show ?thesis
    by (rule conjI [OF old [THEN conjunct1] conjI [OF old [THEN conjunct2] new]])
qed

theorem mode_gating_witness:
  "trace (selectionChange env0 0 world1) = [] \<and>
   locationData (selectionChange env0 0 world1) = None \<and>
   RevealRange 1 (Num 1) \<in> set (trace (selectionChange env0 0 world2)) \<and>
   locationData (selectionChange env0 0 world2) =
     Some \<lparr>originalFileIndex = 2, highlightLineCount = 1\<rparr> \<and>
   line (assistantfile (selectionChange env0 0 world2)) = Some (Num 1) \<and>
   path (assistantfile world_dup) = Some ''a.c'' \<and>
   OpenFileAndJumpToLine (Some ''b.c'') (Num 0) \<in> set (trace (selectionChange env1 0 world_dup)) \<and>
   editor (assistantfile (selectionChange env1 0 world_dup)) = Some 2 \<and>
   path (assistantfile (selectionChange env1 0 world_dup)) = Some ''b.c'' \<and>
   currentActiveFileLocationMap (selectionChange env1 0 world_dup) =
     Mapping.update (Num 1) \<lparr>originalFileIndex = 1, highlightLineCount = 1\<rparr> Mapping.empty \<and>
   locationData (selectionChange env1 0 world_dup) =
     Some \<lparr>originalFileIndex = 1, highlightLineCount = 1\<rparr> \<and>
   line (assistantfile (selectionChange env1 0 world_dup)) = Some (Num 0)"
proof -
  let ?pm = "[Some ''a.c:2'', Some ''a.c'', Some ''2'']"
  let ?pn = "[Some ''b.c:1'', Some ''b.c'', Some ''1'']"
  let ?bmap = "Mapping.update (Num 1) \<lparr>originalFileIndex = 1, highlightLineCount = 1\<rparr> Mapping.empty"
  have g1: "\<not> isFeatureEnabled (config world1)" "scheme (vscode world1) 0 = ''file''"
    "\<not> intercept (config world1)" "\<not> error (config world1)"
    by (simp_all add: world1_def world0_def config0_def host0_def)
  have r1: "editor (masterfile world1) = Some 0" "editor (assistantfile world1) = Some 1"
    "(0::nat) = 0 \<or> (0::nat) = 1"
    by (simp_all add: world1_def world0_def)
  have st1: "oldlines (assistantfile world1) = Some (activeLine (vscode world1) 1)"
    and mv1: "oldlines (masterfile world1) \<noteq> Some (activeLine (vscode world1) 0)"
    by (simp_all add: world1_def world0_def host0_def)
  have in1: "activeLine (vscode world1) 0 < length (lineTexts (vscode world1) 0)"
    by code_simp
  have q: "\<forall>e. \<not> throws env0 e" by (simp add: env0_def)
  have single: "isFeatureEnabled1 (config world1)"
    by (simp add: world1_def world0_def config0_def)
  have g2: "\<not> isFeatureEnabled (config world2)" "scheme (vscode world2) 0 = ''file''"
    "\<not> intercept (config world2)" "\<not> error (config world2)"
    by (simp_all add: world2_def world1_def world0_def config0_def host0_def)
  have r2: "editor (masterfile world2) = Some 0" "editor (assistantfile world2) = Some 1"
    "(0::nat) = 0 \<or> (0::nat) = 1"
    by (simp_all add: world2_def world1_def world0_def)
  have st2: "oldlines (assistantfile world2) = Some (activeLine (vscode world2) 1)"
    and mv2: "oldlines (masterfile world2) \<noteq> Some (activeLine (vscode world2) 0)"
    by (simp_all add: world2_def world1_def world0_def host0_def)
  have in2: "activeLine (vscode world2) 0 < length (lineTexts (vscode world2) 0)"
    by code_simp
  have double: "\<not> isFeatureEnabled1 (config world2)"
    by (simp add: world2_def world1_def world0_def config0_def)
  have near: "nearest_match (pathRegex (config world2)) (skip (config world2))
                (lineTexts (vscode world2) 0) (Suc (activeLine (vscode world2) 0)) = Some ?pm"
    by code_simp
  have same: "?pm ! 1 = path (assistantfile world2)"
    by (simp add: world2_def world1_def world0_def)
  have num: "minus1 (parseFloat env0 (?pm ! 2)) = Num 1"
    by code_simp
  have key: "Mapping.lookup (currentActiveFileLocationMap world2) (parseInt env0 (?pm ! 2)) =
             Some \<lparr>originalFileIndex = 2, highlightLineCount = 1\<rparr>"
    by code_simp
  have g3: "\<not> isFeatureEnabled (config world_dup)" "scheme (vscode world_dup) 0 = ''file''"
    "\<not> intercept (config world_dup)" "\<not> error (config world_dup)"
    by (simp_all add: world_dup_def world2_def world1_def world0_def config0_def host0_def)
  have r3: "editor (masterfile world_dup) = Some 0" "editor (assistantfile world_dup) = Some 1"
    "(0::nat) = 0 \<or> (0::nat) = 1"
    by (simp_all add: world_dup_def world2_def world1_def world0_def)
  have st3: "oldlines (assistantfile world_dup) = Some (activeLine (vscode world_dup) 1)"
    and mv3: "oldlines (masterfile world_dup) \<noteq> Some (activeLine (vscode world_dup) 0)"
    by (simp_all add: world_dup_def world2_def world1_def world0_def host0_def)
  have in3: "activeLine (vscode world_dup) 0 < length (lineTexts (vscode world_dup) 0)"
    by code_simp
  have q1: "\<forall>e. \<not> throws env1 e" by (simp add: env1_def env0_def)
  have double3: "\<not> isFeatureEnabled1 (config world_dup)"
    by (simp add: world_dup_def world2_def world1_def world0_def config0_def)
  have near3: "nearest_match (pathRegex (config world_dup)) (skip (config world_dup))
                (lineTexts (vscode world_dup) 0) (Suc (activeLine (vscode world_dup) 0)) = Some ?pn"
    by code_simp
  have p3: "path (assistantfile world_dup) = Some ''a.c''"
    by (simp add: world_dup_def world2_def world1_def world0_def)
  have other: "?pn ! 1 \<noteq> path (assistantfile world_dup)"
    by (simp add: p3)
  have opened: "fst (openFileAndJumpToLine env1 (?pn ! 1) (minus1 (parseInt env1 (?pn ! 2)))
                   (vscode world_dup)) = Some 2"
    by (simp add: env1_def)
  have norm: "getActiveEditorFilePath (osName (config world_dup))
                (fsPath (snd (openFileAndJumpToLine env1 (?pn ! 1)
                   (minus1 (parseInt env1 (?pn ! 2))) (vscode world_dup))) 2) = Some ''b.c''"
    by code_simp
  have nonempty: "''b.c'' \<noteq> []" by simp
  have found: "Mapping.lookup (fileLocationsMap world_dup) (?pn ! 1) = Some ?bmap"
    by code_simp
  have num3: "minus1 (parseFloat env1 (?pn ! 2)) = Num 0" "minus1 (parseInt env1 (?pn ! 2)) = Num 0"
    by code_simp+
  have key3: "Mapping.lookup ?bmap (parseInt env1 (?pn ! 2)) =
              Some \<lparr>originalFileIndex = 1, highlightLineCount = 1\<rparr>"
    by code_simp
  note t1 = mode_gating [OF g1 r1 st1 mv1 in1 q]
  note t2 = mode_gating [OF g2 r2 st2 mv2 in2 q]
  note t3 = mode_gating [OF g3 r3 st3 mv3 in3 q1]
  have a: "selectionChange env0 0 world1 =
             world1\<lparr>masterfile := (masterfile world1)\<lparr>light := False\<rparr>,
                    assistantfile := (assistantfile world1)\<lparr>light := False\<rparr>,
                    trace := trace world1 @ clears world1\<rparr>"
    using t1 single by blast
  have b: "RevealRange 1 (Num 1) \<in> set (trace (selectionChange env0 0 world2))"
    using t2 [THEN conjunct2, THEN conjunct1] double near same num
    by (simp del: nth_Cons_Suc nth_Cons_numeral)
  note res2 = t2 [THEN conjunct2, THEN conjunct2, rule_format, OF double, unfolded Let_def,
      THEN conjunct2, rule_format, OF near, THEN conjunct1, rule_format, OF same, THEN conjunct2]
  have c: "locationData (selectionChange env0 0 world2) =
             Some \<lparr>originalFileIndex = 2, highlightLineCount = 1\<rparr> \<and>
           line (assistantfile (selectionChange env0 0 world2)) = Some (Num 1)"
    using res2 by (simp only: key num simp_thms)
  have d: "OpenFileAndJumpToLine (Some ''b.c'') (Num 0) \<in> set (trace (selectionChange env1 0 world_dup))"
    using t3 [THEN conjunct2, THEN conjunct1] double3 near3 other num3
    by (simp del: nth_Cons_Suc nth_Cons_numeral)
  note res3 = t3 [THEN conjunct2, THEN conjunct2, rule_format, OF double3, unfolded Let_def,
      THEN conjunct2, rule_format, OF near3, THEN conjunct2, rule_format, OF other,
      THEN conjunct2, rule_format, OF opened, THEN conjunct2, rule_format, OF norm nonempty,
      THEN conjunct2, rule_format, OF found, THEN conjunct2]
  have e: "currentActiveFileLocationMap (selectionChange env1 0 world_dup) = ?bmap \<and>
           locationData (selectionChange env1 0 world_dup) =
             Some \<lparr>originalFileIndex = 1, highlightLineCount = 1\<rparr> \<and>
           line (assistantfile (selectionChange env1 0 world_dup)) = Some (Num 0) \<and>
           editor (assistantfile (selectionChange env1 0 world_dup)) = Some 2 \<and>
           path (assistantfile (selectionChange env1 0 world_dup)) = Some ''b.c''"
    using res3 by (simp only: key3 num3 simp_thms)
  have f: "trace (selectionChange env0 0 world1) = [] \<and>
           locationData (selectionChange env0 0 world1) = None"
    by (simp add: a) (simp add: world1_def world0_def clears_def)
  show ?thesis
    using b c d e f p3 by (simp only: simp_thms)
qed

section \<open>Properties of the commands\<close>

lemma keeps_index_refl: "keeps_index w w"
  by (simp add: keeps_index_def)

lemma keeps_index_trans: "keeps_index a b \<Longrightarrow> keeps_index b c \<Longrightarrow> keeps_index a c"
  by (auto simp: keeps_index_def)

lemma keeps_index_run:
  "(\<And>s w. s \<in> set ss \<Longrightarrow> keeps_index w (snd (s w))) \<Longrightarrow> keeps_index w (snd (run ss w))"
  by (rule run_rel [where R=keeps_index, OF keeps_index_refl keeps_index_trans])

lemma keeps_index_assign:
  "fileLocationsMap (f w) = fileLocationsMap w \<Longrightarrow> trace (f w) = trace w \<Longrightarrow>
   keeps_index w (snd (assign f w))"
  by (simp add: keeps_index_def assign_def)

lemma keeps_index_call: "\<not> is_fs e \<Longrightarrow> keeps_index w (snd (call env e w))"
  by (simp add: keeps_index_def call_def emit_def)

lemma keeps_index_show_master: "keeps_index w (snd (show_master env w))"
  by (auto simp: keeps_index_def show_master_def ret_def is_fs_def Let_def
      split: option.splits)

lemma keeps_index_first_build:
  "keeps_index w (snd (when_stmt (\<lambda>w. Mapping.is_empty (fileLocationsMap w)) (first_build env) w))"
  by (simp add: keeps_index_def when_stmt_def)

lemma extends_mem: "extends a b \<Longrightarrow> e \<in> set (trace a) \<Longrightarrow> e \<in> set (trace b)"
  by (auto simp: extends_def)

lemma extends_show_master: "extends w (snd (show_master env w))"
  by (auto simp: extends_def show_master_def ret_def Let_def split: option.splits)

lemma first_build_reads:
  "FsExistsSync (filepath (config w)) \<in> set (trace (snd (first_build env w)))"
  by (auto simp: first_build_def extractFileLocations_def Let_def
      split: option.splits file_status.splits)

lemma keeps_index_switch_mode: "keeps_index w (snd (switch_mode env w))"
  unfolding switch_mode_def
  by (auto intro!: keeps_index_run keeps_index_assign keeps_index_call simp: is_fs_def
      simp del: run.simps)

lemma switchover_keeps_index: "keeps_index w (toggleFeatureCommand1 env w)"
proof -
  let ?ss = "[assign (set_intercept True),
              assign (\<lambda>w. w\<lparr>config := (config w)\<lparr>state := \<not> state (config w)\<rparr>\<rparr>),
              switch_mode env,
              when_stmt (\<lambda>w. Mapping.is_empty (fileLocationsMap w)) (first_build env),
              show_master env]"
  have body: "keeps_index w (snd (run ?ss w))"
    by (intro keeps_index_run)
       (auto intro!: keeps_index_assign keeps_index_switch_mode keeps_index_show_master
          keeps_index_first_build simp: set_intercept_def)
  have caught: "\<And>v. keeps_index v
      (case call env (ShowInformationMessage ConfigError) v of
         (Normal, w3) \<Rightarrow> w3\<lparr>config := (config w3)\<lparr>error := True\<rparr>\<rparr>
       | (_, w3) \<Rightarrow> w3)"
    by (simp add: keeps_index_def call_def emit_def is_fs_def)
  have last: "\<And>v. keeps_index v (set_intercept False v)"
    by (simp add: keeps_index_def set_intercept_def)
  show ?thesis
    unfolding toggleFeatureCommand1_def Let_def
    using body caught [of "snd (run ?ss w)"] last keeps_index_trans
    by (auto split: if_splits)
qed

lemma close_body:
  "toggleFeatureCommand env w =
     set_intercept False
       (snd (run [clear_master env, clear_assistant env,
                  call env (ShowInformationMessage MappingTurnedOff)] (switched_off w)))"
proof -
  have "(((\<lambda>w. w\<lparr>config := (config w)\<lparr>state := True\<rparr>\<rparr>) \<circ>
          (\<lambda>w. w\<lparr>config := (config w)\<lparr>isFeatureEnabled1 := True\<rparr>\<rparr>) \<circ>
          (\<lambda>w. w\<lparr>config := (config w)\<lparr>isFeatureEnabled := True\<rparr>\<rparr>) \<circ>
          set_intercept True) w) = switched_off w"
    by (simp add: switched_off_def set_intercept_def)
  then show ?thesis
    by (simp add: toggleFeatureCommand_def run_assign Let_def del: run.simps)
qed

lemma close_keeps: "keeps (switched_off w) (snd (run [clear_master env, clear_assistant env,
                  call env (ShowInformationMessage MappingTurnedOff)] (switched_off w)))"
  by (intro keeps_run)
     (auto intro!: keeps_clear_master keeps_clear_assistant keeps_call simp: is_fs_def)

lemma clear_master_quiet:
  "\<forall>e. \<not> throws env e \<Longrightarrow> light (masterfile w) \<longrightarrow> editor (masterfile w) \<noteq> None \<Longrightarrow>
   clear_master env w =
     (Normal, w\<lparr>masterfile := (masterfile w)\<lparr>light := False\<rparr>,
                trace := trace w @
                  (case editor (masterfile w) of
                     Some m \<Rightarrow> if light (masterfile w) then [SetDecorations m []] else []
                   | None \<Rightarrow> [])\<rparr>)"
  by (auto simp: clear_master_def stmt_defs split: option.splits)

lemma clear_assistant_quiet:
  "\<forall>e. \<not> throws env e \<Longrightarrow> light (assistantfile w) \<longrightarrow> editor (assistantfile w) \<noteq> None \<Longrightarrow>
   clear_assistant env w =
     (Normal, w\<lparr>assistantfile := (assistantfile w)\<lparr>light := False\<rparr>,
                trace := trace w @
                  (case editor (assistantfile w) of
                     Some a \<Rightarrow> if light (assistantfile w) then [SetDecorations a []] else []
                   | None \<Rightarrow> [])\<rparr>)"
  by (auto simp: clear_assistant_def stmt_defs split: option.splits)

lemma close_quiet:
  assumes q: "\<forall>e. \<not> throws env e"
    and m: "light (masterfile w) \<longrightarrow> editor (masterfile w) \<noteq> None"
    and a: "light (assistantfile w) \<longrightarrow> editor (assistantfile w) \<noteq> None"
  shows "\<not> light (masterfile (toggleFeatureCommand env w)) \<and>
         \<not> light (assistantfile (toggleFeatureCommand env w)) \<and>
         trace (toggleFeatureCommand env w) =
           trace w @ clears w @ [ShowInformationMessage MappingTurnedOff]"
proof -
  define w1 where "w1 = switched_off w"
  define w2 where "w2 = w1\<lparr>masterfile := (masterfile w1)\<lparr>light := False\<rparr>,
                trace := trace w1 @
                  (case editor (masterfile w1) of
                     Some m \<Rightarrow> if light (masterfile w1) then [SetDecorations m []] else []
                   | None \<Rightarrow> [])\<rparr>"
  define w3 where "w3 = w2\<lparr>assistantfile := (assistantfile w2)\<lparr>light := False\<rparr>,
                trace := trace w2 @
                  (case editor (assistantfile w2) of
                     Some a \<Rightarrow> if light (assistantfile w2) then [SetDecorations a []] else []
                   | None \<Rightarrow> [])\<rparr>"
  have m1: "light (masterfile w1) \<longrightarrow> editor (masterfile w1) \<noteq> None"
    using m by (simp add: w1_def switched_off_def)
  have a2: "light (assistantfile w2) \<longrightarrow> editor (assistantfile w2) \<noteq> None"
    using a by (simp add: w2_def w1_def switched_off_def)
  have s1: "clear_master env w1 = (Normal, w2)"
    unfolding w2_def by (rule clear_master_quiet [OF q m1])
  have s2: "clear_assistant env w2 = (Normal, w3)"
    unfolding w3_def by (rule clear_assistant_quiet [OF q a2])
  have s3: "call env (ShowInformationMessage MappingTurnedOff) w3 =
            (Normal, w3\<lparr>trace := trace w3 @ [ShowInformationMessage MappingTurnedOff]\<rparr>)"
    using q by (simp add: call_def emit_def)
  have fin: "toggleFeatureCommand env w =
        set_intercept False (w3\<lparr>trace := trace w3 @ [ShowInformationMessage MappingTurnedOff]\<rparr>)"
    by (simp add: close_body w1_def [symmetric] s1 s2 s3)
  have t3: "trace w3 = trace w @ clears w"
    by (simp add: w3_def w2_def w1_def switched_off_def clears_def split: option.splits)
  have l3: "\<not> light (masterfile w3)" "\<not> light (assistantfile w3)"
    by (simp_all add: w3_def w2_def)
  show ?thesis
    by (simp add: fin set_intercept_def t3 l3)
qed

text \<open>
  Claim C10. \<^verbatim>\<open>jumptrace.close\<close> leaves the index as it is, sets the three mode flags back
  to their initial values and releases the latch; when the host does not throw, it
  clears the highlights that are on and shows its message. When the index is not empty,
  \<^verbatim>\<open>jumptrace.switchover\<close> after it still leaves the index as it is and does not touch
  the file system: the reference file is not read again. The extraction does run, and
  asks for the file, when \<^verbatim>\<open>jumptrace.switchover\<close> finds the index empty.
\<close>
theorem close_keeps_index:
  "fileLocationsMap (toggleFeatureCommand env w) = fileLocationsMap w \<and>
   isFeatureEnabled (config (toggleFeatureCommand env w)) \<and>
   isFeatureEnabled1 (config (toggleFeatureCommand env w)) \<and>
   state (config (toggleFeatureCommand env w)) \<and>
   \<not> intercept (config (toggleFeatureCommand env w)) \<and>
   ((\<forall>e. \<not> throws env e) \<and>
    (light (masterfile w) \<longrightarrow> editor (masterfile w) \<noteq> None) \<and>
    (light (assistantfile w) \<longrightarrow> editor (assistantfile w) \<noteq> None) \<longrightarrow>
      \<not> light (masterfile (toggleFeatureCommand env w)) \<and>
      \<not> light (assistantfile (toggleFeatureCommand env w)) \<and>
      trace (toggleFeatureCommand env w) =
        trace w @ clears w @ [ShowInformationMessage MappingTurnedOff]) \<and>
   (\<not> Mapping.is_empty (fileLocationsMap w) \<longrightarrow>
      fileLocationsMap (toggleFeatureCommand1 env (toggleFeatureCommand env w)) =
        fileLocationsMap w \<and>
      filter is_fs (trace (toggleFeatureCommand1 env (toggleFeatureCommand env w))) =
        filter is_fs (trace w)) \<and>
   ((\<forall>e. \<not> throws env e) \<and> Mapping.is_empty (fileLocationsMap w) \<longrightarrow>
      FsExistsSync (filepath (config w)) \<in> set (trace (toggleFeatureCommand1 env w)))"
proof -
  let ?w' = "toggleFeatureCommand env w"
  have k: "keeps (switched_off w) (snd (run [clear_master env, clear_assistant env,
                  call env (ShowInformationMessage MappingTurnedOff)] (switched_off w)))"
    by (rule close_keeps)
  have idx: "fileLocationsMap ?w' = fileLocationsMap w"
    using k by (simp add: close_body keeps_def set_intercept_def switched_off_def)
  have flags: "isFeatureEnabled (config ?w') \<and> isFeatureEnabled1 (config ?w') \<and>
               state (config ?w') \<and> \<not> intercept (config ?w')"
    using k by (simp add: close_body keeps_def set_intercept_def switched_off_def)
  have tr: "\<exists>t. trace ?w' = trace w @ t \<and> filter is_fs t = []"
    using k by (simp add: close_body keeps_def set_intercept_def switched_off_def)
  have again: "\<not> Mapping.is_empty (fileLocationsMap w) \<longrightarrow>
      fileLocationsMap (toggleFeatureCommand1 env ?w') = fileLocationsMap w \<and>
      filter is_fs (trace (toggleFeatureCommand1 env ?w')) = filter is_fs (trace w)"
    using switchover_keeps_index [of ?w' env] idx tr by (auto simp: keeps_index_def)
  have reads: "(\<forall>e. \<not> throws env e) \<and> Mapping.is_empty (fileLocationsMap w) \<longrightarrow>
      FsExistsSync (filepath (config w)) \<in> set (trace (toggleFeatureCommand1 env w))"
  proof
    assume h: "(\<forall>e. \<not> throws env e) \<and> Mapping.is_empty (fileLocationsMap w)"
    define w1 where "w1 = (w\<lparr>config := (config (set_intercept True w))
                             \<lparr>state := \<not> state (config w)\<rparr>\<rparr>)"
    have "\<exists>w2. switch_mode env w1 = (Normal, w2) \<and>
            fileLocationsMap w2 = fileLocationsMap w \<and>
            filepath (config w2) = filepath (config w)"
      using h by (cases "state (config w)")
        (simp_all add: switch_mode_def stmt_defs w1_def set_intercept_def)
    then obtain w2 where w2: "switch_mode env w1 = (Normal, w2)"
      "fileLocationsMap w2 = fileLocationsMap w" "filepath (config w2) = filepath (config w)"
      by blast
    let ?r = "run [when_stmt (\<lambda>w. Mapping.is_empty (fileLocationsMap w)) (first_build env),
                   show_master env] w2"
    have r: "run [assign (set_intercept True),
                assign (\<lambda>w. w\<lparr>config := (config w)\<lparr>state := \<not> state (config w)\<rparr>\<rparr>),
                switch_mode env,
                when_stmt (\<lambda>w. Mapping.is_empty (fileLocationsMap w)) (first_build env),
                show_master env] w = ?r"
      using w2(1) by (simp add: assign_def w1_def set_intercept_def)
    have fb: "FsExistsSync (filepath (config w)) \<in> set (trace (snd (first_build env w2)))"
      using first_build_reads [of w2 env] w2(3) by simp
    have inr: "FsExistsSync (filepath (config w)) \<in> set (trace (snd ?r))"
    proof (cases "first_build env w2")
      case (Pair c w3)
      then show ?thesis
        using fb h w2(2) extends_show_master [of w3 env] extends_mem
        by (cases c) (auto simp: when_stmt_def run_single simp del: run.simps
            simp add: run.simps(2) [of _ "[show_master env]"])
    qed
    have "extends (snd ?r) (toggleFeatureCommand1 env w)"
      unfolding toggleFeatureCommand1_def Let_def r
      by (auto simp: extends_def set_intercept_def call_def emit_def)
    then show "FsExistsSync (filepath (config w)) \<in> set (trace (toggleFeatureCommand1 env w))"
      using inr extends_mem by blast
  qed
  show ?thesis
    using idx flags close_quiet [of env w] again reads by blast
qed

theorem close_keeps_index_witness:
  "\<not> Mapping.is_empty (fileLocationsMap world2) \<and>
   fileLocationsMap (toggleFeatureCommand env0 world2) = fileLocationsMap world2 \<and>
   fileLocationsMap (toggleFeatureCommand1 env0 (toggleFeatureCommand env0 world2)) =
     fileLocationsMap world2 \<and>
   filter is_fs (trace (toggleFeatureCommand1 env0 (toggleFeatureCommand env0 world2))) = [] \<and>
   trace (toggleFeatureCommand env0 world_lit) =
     [SetDecorations 0 [], ShowInformationMessage MappingTurnedOff]"
proof -
  have ne: "\<not> Mapping.is_empty (fileLocationsMap world2)" by code_simp
  have q: "\<forall>e. \<not> throws env0 e" by (simp add: env0_def)
  have lit: "light (masterfile world_lit) \<longrightarrow> editor (masterfile world_lit) \<noteq> None"
    "light (assistantfile world_lit) \<longrightarrow> editor (assistantfile world_lit) \<noteq> None"
    by (simp_all add: world_lit_def world0_def)
  have t: "trace world2 = []" "trace world_lit = []"
    "clears world_lit = [SetDecorations 0 []]"
    by (simp_all add: world2_def world1_def world_lit_def world0_def clears_def)
  show ?thesis
    using close_keeps_index [of env0 world2] close_keeps_index [of env0 world_lit] ne q lit
    by (simp add: t)
qed

section \<open>The keys of the index and the handler's lookup\<close>

lemma normalize_nonempty:
  assumes "p \<noteq> []"
  shows "\<exists>q. getActiveEditorFilePath os p = Some q \<and> q \<noteq> []"
proof (cases "os = ''Windows''")
  case False
  then show ?thesis using normalize_other [OF assms False] assms by simp
next
  case True
  show ?thesis
  proof (cases "\<exists>d rest. drive_form (map slash p) d rest")
    case True
    then obtain d rest where "drive_form (map slash p) d rest" by blast
    then show ?thesis using normalize_drive \<open>os = ''Windows''\<close> by simp
  next
    case False
    then have "\<And>d rest. \<not> drive_form (map slash p) d rest" by blast
    then show ?thesis using normalize_plain [OF assms] assms \<open>os = ''Windows''\<close> by simp
  qed
qed

lemma role_resolution_new:
  assumes "editor (masterfile w) \<noteq> Some ev" "editor (assistantfile w) \<noteq> Some ev"
    and "fsPath (vscode w) ev \<noteq> []"
  shows "(fst (role_resolution env ev w) = Normal) =
         (Mapping.lookup (fileLocationsMap w)
            (getActiveEditorFilePath (osName (config w)) (fsPath (vscode w) ev)) \<noteq> None)"
proof -
  obtain q where q: "getActiveEditorFilePath (osName (config w)) (fsPath (vscode w) ev) = Some q"
    "q \<noteq> []"
    using normalize_nonempty [OF assms(3)] by blast
  show ?thesis
    using assms(1,2) q
    by (auto simp: role_resolution_def stmt_defs falsy_def split: option.splits)
qed

text \<open>
  Claim C3, as the code has it. The index is extracted from a reference file into an empty
  index. Its keys are exactly the first groups that the path expression captures on the
  lines that count, stored as they are captured: the extraction does not normalise them.
  For an editor that is neither the master nor the assistant, the handler's lookup of
  the normalised path of the editor finds a map exactly when some line captures a path
  that is equal to that normalised path.
\<close>
theorem keys_are_captured_paths:
  assumes "fsys cfg = Content c"
    and "fileLocationsMap w = snd (extractFileLocations fsys parse cfg Mapping.empty pr sr)"
    and "editor (masterfile w) \<noteq> Some ev" "editor (assistantfile w) \<noteq> Some ev"
    and "fsPath (vscode w) ev \<noteq> []"
  shows "(Mapping.lookup (fileLocationsMap w) key \<noteq> None) =
           (\<exists>i<length (split_lines c). \<exists>k. token parse pr sr (split_lines c ! i) = Some (key, k)) \<and>
         (fst (role_resolution env ev w) = Normal) =
           (\<exists>i<length (split_lines c). \<exists>k. token parse pr sr (split_lines c ! i) =
              Some (getActiveEditorFilePath (osName (config w)) (fsPath (vscode w) ev), k))"
proof -
  let ?L = "split_lines c"
  have eq: "fileLocationsMap w =
            extract_loop parse pr sr ?L (length ?L) (int (length ?L)) Mapping.empty"
    using assms(1,2) by (simp add: extractFileLocations_def Let_def)
  have keys: "\<And>q. (Mapping.lookup (fileLocationsMap w) q \<noteq> None) =
           (\<exists>i<length ?L. \<exists>k. token parse pr sr (?L ! i) = Some (q, k))"
    unfolding eq extract_loop_keys by simp
  show ?thesis
    using keys role_resolution_new [OF assms(3,4,5), of env] by simp
qed

theorem keys_are_captured_paths_witness:
  "Mapping.lookup (fileLocationsMap world_win) (Some path_win) \<noteq> None \<and>
   token parseInt10 re_path_windows re_skip_default (split_lines (path_win @ '':10'') ! 0) =
     Some (Some path_win, Num 10) \<and>
   fst (role_resolution env0 2 world_win) \<noteq> Normal"
proof -
  have h1: "fs_win ''ref'' = Content (path_win @ '':10'')" by (simp add: fs_win_def)
  have h2: "fileLocationsMap world_win =
            snd (extractFileLocations fs_win parseInt10 ''ref'' Mapping.empty re_path_windows re_skip_default)"
    by (simp add: world_win_def)
  have h3: "editor (masterfile world_win) \<noteq> Some 2" "editor (assistantfile world_win) \<noteq> Some 2"
    by (simp_all add: world_win_def world0_def)
  have h4: "fsPath (vscode world_win) 2 \<noteq> []" by code_simp
  have len: "length (split_lines (path_win @ '':10'')) = 1" by code_simp
  have tk: "token parseInt10 re_path_windows re_skip_default (split_lines (path_win @ '':10'') ! 0) =
            Some (Some path_win, Num 10)" by code_simp
  have other: "getActiveEditorFilePath (osName (config world_win)) (fsPath (vscode world_win) 2)
               \<noteq> Some path_win" by code_simp
  note inst = keys_are_captured_paths [where fsys=fs_win and cfg="''ref''" and w=world_win
      and ev=2 and pr=re_path_windows and sr=re_skip_default and env=env0, OF h1 h2 h3 h4]
  have a: "Mapping.lookup (fileLocationsMap world_win) (Some path_win) \<noteq> None"
    using inst [of "Some path_win"] tk len by auto
  have b: "fst (role_resolution env0 2 world_win) \<noteq> Normal"
    using inst [of "Some path_win"] tk len other by auto
  show ?thesis using a b tk by simp
qed

text \<open>
  The reference line names \<^verbatim>\<open>a.c\<close> in \<^verbatim>\<open>src\<close> on drive \<^verbatim>\<open>c:\<close>, with a lower-case drive
  letter and backslashes. This spelling is a key of the index and is not its own normal
  form \<^verbatim>\<open>C:/src/a.c\<close>, under which the index has nothing; the handler, for a new editor
  on that very file, does not adopt the map.
\<close>
theorem keys_not_normalized_counterexample:
  "Mapping.lookup (fileLocationsMap world_win) (Some path_win) \<noteq> None \<and>
   getActiveEditorFilePath ''Windows'' path_win = Some ''C:/src/a.c'' \<and>
   Some ''C:/src/a.c'' \<noteq> Some path_win \<and>
   Mapping.lookup (fileLocationsMap world_win) (Some ''C:/src/a.c'') = None \<and>
   fsPath (vscode world_win) 2 = path_win \<and>
   currentActiveFileLocationMap (selectionChange env0 2 world_win) =
     currentActiveFileLocationMap world_win"
  by code_simp

end
